theory Spec2Isabelle
  imports Main "HOL-Library.Multiset" "HOL-Library.AList"
begin

section \<open>Tiles (tile.js, constants.js)\<close>

text \<open>
  The seven suit strings of \<^verbatim>\<open>SUITS\<close> form a closed enumeration.  A tile carries its suit,
  its numeric face value and the unique instance id given by \<^verbatim>\<open>createAllTiles\<close>.
\<close>

datatype suit = Wan | Tung | Sok | Wind | Dragon | Flower | Season

record tile =
  suit :: suit
  val :: nat
  tid :: nat

definition mkTile :: "suit \<Rightarrow> nat \<Rightarrow> nat \<Rightarrow> tile" where
  "mkTile s v i = \<lparr>suit = s, val = v, tid = i\<rparr>"

definition numberSuit :: "suit \<Rightarrow> bool" where
  "numberSuit s = (s = Wan \<or> s = Tung \<or> s = Sok)"

definition isNumberSuit :: "tile \<Rightarrow> bool" where
  "isNumberSuit t = numberSuit (suit t)"

definition isWind :: "tile \<Rightarrow> bool" where
  "isWind t = (suit t = Wind)"

definition isDragon :: "tile \<Rightarrow> bool" where
  "isDragon t = (suit t = Dragon)"

definition isHonour :: "tile \<Rightarrow> bool" where
  "isHonour t = (isWind t \<or> isDragon t)"

definition isBonus :: "tile \<Rightarrow> bool" where
  "isBonus t = (suit t = Flower \<or> suit t = Season)"

text \<open>
  The grouping key is the string \<^verbatim>\<open>`${suit}_${value}`\<close>.  The only things the program ever
  does with such a string are to compare it, to split it again at the underscore and to ask
  whether it starts with a suit name, so the key is modelled as the pair it is printed from.
\<close>

type_synonym key = "suit \<times> nat"

definition key :: "tile \<Rightarrow> key" where
  "key t = (suit t, val t)"

text \<open>
  \<^verbatim>\<open>sortKey\<close> looks the suit up in a table that has no entry for flowers and seasons; for those
  the product is NaN, modelled as \<open>None\<close>.
\<close>

definition suitOrder :: "suit \<Rightarrow> nat option" where
  "suitOrder s = (case s of Wan \<Rightarrow> Some 0 | Tung \<Rightarrow> Some 1 | Sok \<Rightarrow> Some 2
                  | Wind \<Rightarrow> Some 3 | Dragon \<Rightarrow> Some 4 | _ \<Rightarrow> None)"

definition sortKey :: "tile \<Rightarrow> nat option" where
  "sortKey t = (case suitOrder (suit t) of None \<Rightarrow> None | Some k \<Rightarrow> Some (k * 100 + val t))"

text \<open>\<^verbatim>\<open>Tile.compare(a, b) > 0\<close>; a comparison with NaN is false.\<close>

definition compareGreater :: "tile \<Rightarrow> tile \<Rightarrow> bool" where
  "compareGreater a b = (case (sortKey a, sortKey b) of (Some x, Some y) \<Rightarrow> x > y | _ \<Rightarrow> False)"

text \<open>
  \<^verbatim>\<open>Array.prototype.sort(Tile.compare)\<close> is a stable sort.  It is modelled by a stable
  insertion sort.  When bonus tiles are in the array the comparator is not consistent and the
  language leaves the order open; every general statement below only uses that the result
  is a rearrangement of the input.
\<close>

fun insertTile :: "tile \<Rightarrow> tile list \<Rightarrow> tile list" where
  "insertTile x [] = [x]"
| "insertTile x (y # ys) = (if compareGreater x y then y # insertTile x ys else x # y # ys)"

definition sortTiles :: "tile list \<Rightarrow> tile list" where
  "sortTiles xs = foldr insertTile xs []"

section \<open>Hands (hand.js)\<close>

datatype meld_type = Chow | Pung | KongExposed | KongConcealed | KongAdded

text \<open>
  A meld object \<^verbatim>\<open>{ type, tiles }\<close>; the game adds \<^verbatim>\<open>fromPlayer\<close> to melds claimed from a
  discard, so the field is optional (\<open>None\<close> is JavaScript's \<^verbatim>\<open>undefined\<close>).
\<close>

record meld =
  mtype :: meld_type
  mtiles :: "tile list"
  fromPlayer :: "nat option"

record hand =
  playerIndex :: nat
  concealed :: "tile list"
  melds :: "meld list"
  flowers :: "tile list"
  discards :: "tile list"

subsection \<open>Counting objects\<close>

text \<open>
  \<^verbatim>\<open>groups\<close> and \<^verbatim>\<open>counts\<close> are plain objects used as dictionaries from key to count.
  \<^verbatim>\<open>Object.keys\<close> lists the keys in insertion order and that order drives the search, so
  the object is an association list in insertion order.
\<close>

type_synonym counts = "(key \<times> nat) list"

text \<open>\<^verbatim>\<open>groups[k] || 0\<close>\<close>

definition cnt :: "counts \<Rightarrow> key \<Rightarrow> nat" where
  "cnt g k = (case map_of g k of None \<Rightarrow> 0 | Some c \<Rightarrow> c)"

text \<open>\<^verbatim>\<open>groups[k] = (groups[k] || 0) + 1\<close>\<close>

definition bump :: "key \<Rightarrow> counts \<Rightarrow> counts" where
  "bump k g = AList.update k (cnt g k + 1) g"

text \<open>\<^verbatim>\<open>for (const t of tiles) groups[t.key] = (groups[t.key] || 0) + 1\<close>\<close>

definition groupTiles :: "tile list \<Rightarrow> counts" where
  "groupTiles ts = fold (\<lambda>t g. bump (key t) g) ts []"

subsection \<open>Win detection\<close>

text \<open>The loop \<^verbatim>\<open>while (keyIdx < keys.length && groups[keys[keyIdx]] === 0) keyIdx++\<close>.\<close>

function skipZero :: "counts \<Rightarrow> key list \<Rightarrow> nat \<Rightarrow> nat" where
  "skipZero groups keys keyIdx =
     (if keyIdx < length keys \<and> map_of groups (keys ! keyIdx) = Some 0
      then skipZero groups keys (keyIdx + 1) else keyIdx)"
  by pat_completeness auto
termination
  by (relation "measure (\<lambda>(g, ks, i). length ks - i)") auto

declare skipZero.simps [simp del]

text \<open>The keys \<^verbatim>\<open>`${suit}_${value + 1}`\<close> and \<^verbatim>\<open>`${suit}_${value + 2}`\<close> of a run.\<close>

definition k2 :: "key \<Rightarrow> key" where
  "k2 k = (fst k, snd k + 1)"

definition k3 :: "key \<Rightarrow> key" where
  "k3 k = (fst k, snd k + 2)"

text \<open>The three decrements of the run branch, in the order of the source.\<close>

definition takeChow :: "key \<Rightarrow> counts \<Rightarrow> counts" where
  "takeChow k g =
     (let g1 = AList.update k (cnt g k - 1) g;
          g2 = AList.update (k2 k) (cnt g1 (k2 k) - 1) g1
      in AList.update (k3 k) (cnt g2 (k3 k) - 1) g2)"

definition chowPossible :: "counts \<Rightarrow> key \<Rightarrow> bool" where
  "chowPossible g k = (numberSuit (fst k) \<and> snd k \<le> 7 \<and> cnt g (k2 k) > 0 \<and> cnt g (k3 k) > 0)"

lemma skipZero_step:
  "keyIdx < length keys \<Longrightarrow> map_of groups (keys ! keyIdx) = Some 0 \<Longrightarrow>
   skipZero groups keys keyIdx = skipZero groups keys (Suc keyIdx)"
  by (subst skipZero.simps) simp

lemma skipZero_stop:
  "\<not> (keyIdx < length keys \<and> map_of groups (keys ! keyIdx) = Some 0) \<Longrightarrow>
   skipZero groups keys keyIdx = keyIdx"
  by (subst skipZero.simps) auto

lemma skipZero_nonzero:
  "skipZero g ks i < length ks \<Longrightarrow> map_of g (ks ! skipZero g ks i) \<noteq> Some 0"
proof (induction g ks i rule: skipZero.induct)
  case (1 groups keys keyIdx)
  show ?case
  proof (cases "keyIdx < length keys \<and> map_of groups (keys ! keyIdx) = Some 0")
    case True
    with 1 show ?thesis by (simp add: skipZero_step)
  next
    case False
    with 1 show ?thesis by (simp add: skipZero_stop)
  qed
qed

lemma skipZero_positive:
  "skipZero g ks i < length ks \<Longrightarrow> map_of g (ks ! skipZero g ks i) = Some c \<Longrightarrow> 0 < c"
  using skipZero_nonzero [of g ks i] by (cases c) auto

lemma sum_update_less:
  "map_of (g :: ('a \<times> nat) list) k = Some c \<Longrightarrow> v < c \<Longrightarrow>
   sum_list (map snd (AList.update k v g)) < sum_list (map snd g)"
  by (induction g) (auto split: if_splits)

lemma sum_dec_le:
  "sum_list (map snd (AList.update k (cnt g k - n) g)) \<le> sum_list (map snd g)"
  by (induction g) (auto simp: cnt_def split: option.splits)

lemma sum_dec_less:
  "0 < cnt g k \<Longrightarrow> sum_list (map snd (AList.update k (cnt g k - 1) g)) < sum_list (map snd g)"
  by (auto simp: cnt_def split: option.splits intro: sum_update_less)

lemma sum_takeChow_less:
  assumes "0 < cnt g k"
  shows "sum_list (map snd (takeChow k g)) < sum_list (map snd g)"
proof -
  let ?g1 = "AList.update k (cnt g k - 1) g"
  let ?g2 = "AList.update (k2 k) (cnt ?g1 (k2 k) - 1) ?g1"
  have "sum_list (map snd (takeChow k g)) \<le> sum_list (map snd ?g2)"
    unfolding takeChow_def Let_def by (rule sum_dec_le)
  also have "\<dots> \<le> sum_list (map snd ?g1)" by (rule sum_dec_le)
  also have "\<dots> < sum_list (map snd g)" using assms by (rule sum_dec_less)
  finally show ?thesis .
qed

function tryRemoveSets :: "counts \<Rightarrow> key list \<Rightarrow> nat \<Rightarrow> bool \<Rightarrow> bool" where
  "tryRemoveSets groups keys keyIdx0 pairUsed =
     (let keyIdx = skipZero groups keys keyIdx0 in
      if keyIdx \<ge> length keys then pairUsed
      else
        let key = keys ! keyIdx in
        case map_of groups key of
          None \<Rightarrow> False
        | Some kcount \<Rightarrow>
            if (if \<not> pairUsed \<and> kcount \<ge> 2
                then tryRemoveSets (AList.update key (kcount - 2) groups) keys keyIdx True
                else False) then True
            else if (if kcount \<ge> 3
                     then tryRemoveSets (AList.update key (kcount - 3) groups) keys keyIdx pairUsed
                     else False) then True
            else if chowPossible groups key
                 then tryRemoveSets (takeChow key groups) keys keyIdx pairUsed
                 else False)"
  by pat_completeness auto
termination
proof (relation "measure (\<lambda>(g, ks, i, p). sum_list (map snd g))", goal_cases)
  case 1
  show ?case by simp
next
  case (2 groups keys keyIdx0 pairUsed keyIdx key kcount)
  then show ?case by (auto intro!: sum_update_less)
next
  case (3 groups keys keyIdx0 pairUsed keyIdx key kcount)
  then show ?case by (auto intro!: sum_update_less)
next
  case (4 groups keys keyIdx0 pairUsed keyIdx key kcount)
  then have "0 < kcount" using skipZero_positive [of groups keys keyIdx0 kcount] by simp
  with 4 have "0 < cnt groups key" by (simp add: cnt_def)
  then show ?case by (simp add: sum_takeChow_less)
qed


declare tryRemoveSets.simps [simp del]

text \<open>\<^verbatim>\<open>_checkStandardWin\<close>\<close>

definition checkStandardWin :: "tile list \<Rightarrow> bool" where
  "checkStandardWin ts = (let groups = groupTiles ts in tryRemoveSets groups (map fst groups) 0 False)"

text \<open>\<^verbatim>\<open>_checkSevenPairs\<close>: \<^verbatim>\<open>Object.values(counts)\<close> has length 7 and every entry is 2.\<close>

definition checkSevenPairs :: "tile list \<Rightarrow> bool" where
  "checkSevenPairs ts =
     (let vals = map snd (groupTiles ts) in length vals = 7 \<and> list_all (\<lambda>v. v = 2) vals)"

definition required :: "key list" where
  "required = [(Wan, 1), (Wan, 9), (Tung, 1), (Tung, 9), (Sok, 1), (Sok, 9),
               (Wind, 1), (Wind, 2), (Wind, 3), (Wind, 4),
               (Dragon, 1), (Dragon, 2), (Dragon, 3)]"

text \<open>
  The loop of \<^verbatim>\<open>_checkThirteenOrphans\<close> over the required keys: it returns false at the first
  missing key and otherwise remembers whether some required key has count exactly 2.
\<close>

fun orphansLoop :: "counts \<Rightarrow> key list \<Rightarrow> bool \<Rightarrow> bool" where
  "orphansLoop counts [] hasPair = hasPair"
| "orphansLoop counts (k # ks) hasPair =
     (if cnt counts k < 1 then False
      else orphansLoop counts ks (if cnt counts k = 2 then True else hasPair))"

definition checkThirteenOrphans :: "tile list \<Rightarrow> bool" where
  "checkThirteenOrphans ts = orphansLoop (groupTiles ts) required False"

definition canWin :: "hand \<Rightarrow> bool" where
  "canWin h =
     (let ts = concealed h in
      if checkStandardWin ts then True
      else if melds h = [] \<and> length ts = 14 \<and> checkSevenPairs ts then True
      else if melds h = [] \<and> length ts = 14 \<and> checkThirteenOrphans ts then True
      else False)"

subsection \<open>Win decomposition\<close>

text \<open>
  A set of a decomposition, \<^verbatim>\<open>{ type, key, suit, value }\<close>; \<^verbatim>\<open>suit\<close> and \<^verbatim>\<open>value\<close> are the two
  parts of the key.  The type strings \<^verbatim>\<open>'chow'\<close> and \<^verbatim>\<open>'pung'\<close> are the strings of
  \<^verbatim>\<open>MELD_TYPE.CHOW\<close> and \<^verbatim>\<open>MELD_TYPE.PUNG\<close>.  Scoring adds \<^verbatim>\<open>exposed: true\<close> to the sets it
  makes from melds.
\<close>

record wset =
  stype :: meld_type
  skey :: key
  exposed :: bool

definition mkSet :: "meld_type \<Rightarrow> key \<Rightarrow> wset" where
  "mkSet ty k = \<lparr>stype = ty, skey = k, exposed = False\<rparr>"

text \<open>
  \<^verbatim>\<open>_decompose\<close> runs the search of \<^verbatim>\<open>_tryRemoveSets\<close> and records its choices in
  \<^verbatim>\<open>result\<close>.  A failed branch undoes its change of \<^verbatim>\<open>result\<close>, so the function is modelled
  as returning the final \<^verbatim>\<open>result\<close> on success (\<^verbatim>\<open>true\<close>) and \<open>None\<close> on failure
  (\<^verbatim>\<open>false\<close>, \<^verbatim>\<open>result\<close> as it was).
\<close>

type_synonym partial_result = "key option \<times> wset list"

function decompose :: "counts \<Rightarrow> key list \<Rightarrow> nat \<Rightarrow> partial_result \<Rightarrow> partial_result option" where
  "decompose groups keys keyIdx0 result =
     (let keyIdx = skipZero groups keys keyIdx0 in
      if keyIdx \<ge> length keys then (if fst result \<noteq> None then Some result else None)
      else
        let key = keys ! keyIdx in
        case map_of groups key of
          None \<Rightarrow> None
        | Some kcount \<Rightarrow>
            (case (if fst result = None \<and> kcount \<ge> 2
                   then decompose (AList.update key (kcount - 2) groups) keys keyIdx
                          (Some key, snd result)
                   else None) of
               Some r \<Rightarrow> Some r
             | None \<Rightarrow>
                 (case (if kcount \<ge> 3
                        then decompose (AList.update key (kcount - 3) groups) keys keyIdx
                               (fst result, snd result @ [mkSet Pung key])
                        else None) of
                    Some r \<Rightarrow> Some r
                  | None \<Rightarrow>
                      if chowPossible groups key
                      then decompose (takeChow key groups) keys keyIdx
                             (fst result, snd result @ [mkSet Chow key])
                      else None)))"
  by pat_completeness auto
termination
proof (relation "measure (\<lambda>(g, ks, i, r). sum_list (map snd g))", goal_cases)
  case 1
  show ?case by simp
next
  case (2 groups keys keyIdx0 result keyIdx key kcount)
  then show ?case by (auto intro!: sum_update_less)
next
  case (3 groups keys keyIdx0 result keyIdx key kcount)
  then show ?case by (auto intro!: sum_update_less)
next
  case (4 groups keys keyIdx0 result keyIdx key kcount)
  then have "0 < kcount" using skipZero_positive [of groups keys keyIdx0 kcount] by simp
  with 4 have "0 < cnt groups key" by (simp add: cnt_def)
  then show ?case by (simp add: sum_takeChow_less)
qed

declare decompose.simps [simp del]

datatype special = SevenPairs | ThirteenOrphans

text \<open>
  The value of \<^verbatim>\<open>getWinDecomposition\<close>: \<^verbatim>\<open>{ special, tiles }\<close>, or
  \<^verbatim>\<open>{ pair, sets, melds }\<close>; \<^verbatim>\<open>null\<close> is \<open>None\<close>.
\<close>

datatype decomposition =
    SpecialHand special "tile list"
  | Standard "key option" "wset list" "meld list"

definition getWinDecomposition :: "hand \<Rightarrow> decomposition option" where
  "getWinDecomposition h =
     (let ts = concealed h in
      if melds h = [] \<and> length ts = 14 \<and> checkSevenPairs ts then Some (SpecialHand SevenPairs ts)
      else if melds h = [] \<and> length ts = 14 \<and> checkThirteenOrphans ts
      then Some (SpecialHand ThirteenOrphans ts)
      else
        let groups = groupTiles ts in
        case decompose groups (map fst groups) 0 (None, []) of
          Some (pair, sets) \<Rightarrow> Some (Standard pair sets (melds h))
        | None \<Rightarrow> None)"

subsection \<open>Reassembling a decomposition\<close>

text \<open>
  The keys a decomposition stands for: a pair is two tiles of its key, a pung three tiles of
  its key, a chow one tile of its key and of the next two values of the suit.
\<close>

definition setKeys :: "wset \<Rightarrow> key list" where
  "setKeys s = (if stype s = Chow then [skey s, k2 (skey s), k3 (skey s)]
                else [skey s, skey s, skey s])"

definition pairKeys :: "key option \<Rightarrow> key list" where
  "pairKeys p = (case p of None \<Rightarrow> [] | Some k \<Rightarrow> [k, k])"

definition resultKeys :: "partial_result \<Rightarrow> key list" where
  "resultKeys r = pairKeys (fst r) @ concat (map setKeys (snd r))"

section \<open>Scoring (scoring.js)\<close>

definition MAX_FAN :: nat where
  "MAX_FAN = 13"

text \<open>
  The object built by \<^verbatim>\<open>Game.getContext\<close>.  Its fields \<^verbatim>\<open>allDiscards\<close> and \<^verbatim>\<open>players\<close> are read
  by the computer players only and are left out.
\<close>

record scoring_context =
  seatWind :: nat
  roundWind :: nat
  selfDrawn :: bool
  isLastTile :: bool
  isKongDraw :: bool
  minFan :: nat

text \<open>
  The names of the breakdown entries are Chinese strings; each constructor stands for one
  of them, in the order in which \<^verbatim>\<open>Scoring.calculate\<close> mentions them.  The three templated
  names carry the number the template prints.
\<close>

datatype fan_name =
    ThirteenOrphansFan | SevenPairsFan | AllHonoursFan | NineGatesFan | AllPungsFan
  | CleanFlushFan | MixedFlushFan | PingWuFan | DragonPungFan nat | SeatWindFan nat
  | RoundWindFan nat | SelfDrawnFan | ConcealedHandFan | LastTileFan | KongDrawFan
  | SmallThreeDragonsFan | BigThreeDragonsFan | SmallFourWindsFan | BigFourWindsFan
  | FlowerSetFan | MatchingFlowerFan | SeasonSetFan | MatchingSeasonFan | EightBonusFan

type_synonym breakdown = "(fan_name \<times> nat) list"

record scoring =
  totalFan :: nat
  breakdown :: breakdown

datatype js_error = TypeError

text \<open>\<^verbatim>\<open>breakdown.reduce((s, b) => s + b.fan, 0)\<close>\<close>

definition sumFan :: "breakdown \<Rightarrow> nat" where
  "sumFan bd = sum_list (map snd bd)"

text \<open>\<^verbatim>\<open>new Set(xs).size\<close>\<close>

definition setSize :: "'a list \<Rightarrow> nat" where
  "setSize xs = length (remdups xs)"

text \<open>\<^verbatim>\<open>_checkFlush\<close>; its parameter \<^verbatim>\<open>melds\<close> is not used by the source.\<close>

definition checkFlush :: "tile list \<Rightarrow> meld list \<Rightarrow> breakdown \<Rightarrow> breakdown" where
  "checkFlush allTiles ms bd =
     (let numberTiles = filter isNumberSuit allTiles;
          honourTiles = filter isHonour allTiles
      in if length numberTiles > 0 then
           (if setSize (map suit numberTiles) = 1 then
              (if length honourTiles = 0 then bd @ [(CleanFlushFan, 7)]
               else bd @ [(MixedFlushFan, 3)])
            else bd)
         else bd)"

text \<open>\<^verbatim>\<open>_checkFlowers\<close>\<close>

definition checkFlowers :: "hand \<Rightarrow> scoring_context \<Rightarrow> breakdown \<Rightarrow> breakdown" where
  "checkFlowers h ctx bd =
     (let fs = filter (\<lambda>t. suit t = Flower) (flowers h);
          ss = filter (\<lambda>t. suit t = Season) (flowers h);
          bd1 = (if length fs = 4 then bd @ [(FlowerSetFan, 2)] else bd);
          bd2 = (if find (\<lambda>f. val f = seatWind ctx) fs \<noteq> None
                 then bd1 @ [(MatchingFlowerFan, 1)] else bd1);
          bd3 = (if length ss = 4 then bd2 @ [(SeasonSetFan, 2)] else bd2);
          bd4 = (if find (\<lambda>f. val f = seatWind ctx) ss \<noteq> None
                 then bd3 @ [(MatchingSeasonFan, 1)] else bd3)
      in if length (flowers h) = 8 then bd4 @ [(EightBonusFan, MAX_FAN)] else bd4)"

text \<open>
  The sets made from the exposed melds.  \<^verbatim>\<open>m.tiles[0].key\<close> throws a TypeError for a meld
  without tiles; that is \<open>None\<close>.
\<close>

fun meldSets :: "meld list \<Rightarrow> wset list option" where
  "meldSets [] = Some []"
| "meldSets (m # ms) =
     (case mtiles m of
        [] \<Rightarrow> None
      | t # _ \<Rightarrow>
          (case meldSets ms of
             None \<Rightarrow> None
           | Some ss \<Rightarrow>
               Some (\<lparr>stype = (if mtype m = Chow then Chow else Pung), skey = key t,
                       exposed = True\<rparr> # ss)))"

text \<open>
  The type test repeated in the three loops over \<^verbatim>\<open>allSets\<close>:
  \<^verbatim>\<open>s.type === 'pung' || s.type === MELD_TYPE.PUNG || s.type === MELD_TYPE.KONG_EXPOSED ||
  s.type === MELD_TYPE.KONG_CONCEALED || s.type === MELD_TYPE.KONG_ADDED\<close>.
\<close>

definition pungLike :: "wset \<Rightarrow> bool" where
  "pungLike s = (stype s = Pung \<or> stype s = KongExposed \<or> stype s = KongConcealed
                 \<or> stype s = KongAdded)"

text \<open>The number of tiles of \<^verbatim>\<open>allTiles\<close> with a given value (\<^verbatim>\<open>counts[v]\<close> of nine gates).\<close>

definition valueCount :: "tile list \<Rightarrow> nat \<Rightarrow> nat" where
  "valueCount ts v = length (filter (\<lambda>t. val t = v) ts)"

definition nineGatesCounts :: "tile list \<Rightarrow> bool" where
  "nineGatesCounts ts =
     (valueCount ts 1 \<ge> 3 \<and> valueCount ts 9 \<ge> 3 \<and> valueCount ts 2 \<ge> 1 \<and> valueCount ts 3 \<ge> 1
      \<and> valueCount ts 4 \<ge> 1 \<and> valueCount ts 5 \<ge> 1 \<and> valueCount ts 6 \<ge> 1
      \<and> valueCount ts 7 \<ge> 1 \<and> valueCount ts 8 \<ge> 1)"

text \<open>
  The nine-gates test.  \<^verbatim>\<open>allTiles[0]\<close> is only read when the set of suits has one element,
  so the list is not empty there.
\<close>

definition nineGates :: "hand \<Rightarrow> tile list \<Rightarrow> bool" where
  "nineGates h allTiles =
     (length (melds h) = 0 \<and> setSize (map suit allTiles) = 1 \<and>
      (case allTiles of [] \<Rightarrow> False | t # _ \<Rightarrow> isNumberSuit t) \<and> nineGatesCounts allTiles)"

text \<open>The accumulation part of \<^verbatim>\<open>Scoring.calculate\<close>, from "All Pungs" to the end.\<close>

definition accumulate ::
  "hand \<Rightarrow> scoring_context \<Rightarrow> key option \<Rightarrow> wset list \<Rightarrow> tile list \<Rightarrow> breakdown" where
  "accumulate h ctx pair allSets allTiles =
     (let bd0 = (if list_all (\<lambda>s. stype s \<noteq> Chow) allSets then [(AllPungsFan, 3)] else []);
          bd1 = checkFlush allTiles (melds h) bd0;
          bd2 = (if list_all (\<lambda>s. stype s = Chow) allSets \<and> length (melds h) = 0
                 then bd1 @ [(PingWuFan, 1)] else bd1);
          bd3 = bd2 @ map (\<lambda>s. (DragonPungFan (snd (skey s)), 1))
                        (filter (\<lambda>s. pungLike s \<and> fst (skey s) = Dragon) allSets);
          bd4 = bd3 @ map (\<lambda>s. (SeatWindFan (seatWind ctx), 1))
                        (filter (\<lambda>s. skey s = (Wind, seatWind ctx) \<and> pungLike s) allSets);
          bd5 = bd4 @ map (\<lambda>s. (RoundWindFan (roundWind ctx), 1))
                        (filter (\<lambda>s. skey s = (Wind, roundWind ctx) \<and> pungLike s) allSets);
          bd6 = (if selfDrawn ctx then bd5 @ [(SelfDrawnFan, 1)] else bd5);
          bd7 = (if length (melds h) = 0 \<and> \<not> selfDrawn ctx
                 then bd6 @ [(ConcealedHandFan, 1)] else bd6);
          bd8 = (if isLastTile ctx then bd7 @ [(LastTileFan, 1)] else bd7);
          bd9 = (if isKongDraw ctx then bd8 @ [(KongDrawFan, 1)] else bd8);
          dragonPungCount =
            length (filter (\<lambda>s. fst (skey s) = Dragon \<and> stype s \<noteq> Chow) allSets);
          dragonPair = (case pair of None \<Rightarrow> False | Some k \<Rightarrow> fst k = Dragon);
          bd10 = (if dragonPungCount = 2 \<and> dragonPair
                  then bd9 @ [(SmallThreeDragonsFan, 4)] else bd9);
          bd11 = (if dragonPungCount = 3 then bd10 @ [(BigThreeDragonsFan, 8)] else bd10);
          windPungCount =
            length (filter (\<lambda>s. fst (skey s) = Wind \<and> stype s \<noteq> Chow) allSets);
          windPair = (case pair of None \<Rightarrow> False | Some k \<Rightarrow> fst k = Wind);
          bd12 = (if windPungCount = 3 \<and> windPair
                  then bd11 @ [(SmallFourWindsFan, 6)] else bd11);
          bd13 = (if windPungCount = 4 then bd12 @ [(BigFourWindsFan, MAX_FAN)] else bd12)
      in checkFlowers h ctx bd13)"

text \<open>\<^verbatim>\<open>Scoring.calculate\<close>\<close>

definition calculate :: "hand \<Rightarrow> scoring_context \<Rightarrow> js_error + scoring" where
  "calculate h ctx =
     (case getWinDecomposition h of
        None \<Rightarrow> Inr \<lparr>totalFan = 0, breakdown = []\<rparr>
      | Some (SpecialHand ThirteenOrphans ts) \<Rightarrow>
          Inr \<lparr>totalFan = MAX_FAN, breakdown = [(ThirteenOrphansFan, MAX_FAN)]\<rparr>
      | Some (SpecialHand SevenPairs ts) \<Rightarrow>
          (let bd = [(SevenPairsFan, 4)] in
           if list_all isHonour ts
           then Inr \<lparr>totalFan = MAX_FAN, breakdown = bd @ [(AllHonoursFan, MAX_FAN)]\<rparr>
           else
             let bd1 = checkFlush ts (melds h) bd;
                 total = sumFan bd1
             in if selfDrawn ctx
                then Inr \<lparr>totalFan = min (total + 1) MAX_FAN,
                          breakdown = bd1 @ [(SelfDrawnFan, 1)]\<rparr>
                else Inr \<lparr>totalFan = min total MAX_FAN, breakdown = bd1\<rparr>)
      | Some (Standard pair sets ms) \<Rightarrow>
          (case meldSets (melds h) of
             None \<Rightarrow> Inl TypeError
           | Some msets \<Rightarrow>
               (let allSets = sets @ msets;
                    allTiles = concealed h @ concat (map mtiles (melds h))
                in if list_all isHonour allTiles
                   then Inr \<lparr>totalFan = MAX_FAN, breakdown = [(AllHonoursFan, MAX_FAN)]\<rparr>
                   else if nineGates h allTiles
                   then Inr \<lparr>totalFan = MAX_FAN, breakdown = [(NineGatesFan, MAX_FAN)]\<rparr>
                   else
                     let bd = accumulate h ctx pair allSets allTiles
                     in Inr \<lparr>totalFan = min (sumFan bd) MAX_FAN, breakdown = bd\<rparr>)))"

text \<open>\<^verbatim>\<open>Scoring.meetsMinimum\<close>\<close>

definition meetsMinimum :: "nat \<Rightarrow> nat \<Rightarrow> bool" where
  "meetsMinimum fan minimumFan = (fan \<ge> minimumFan)"

text \<open>\<^verbatim>\<open>Scoring.fanToPoints\<close>: \<^verbatim>\<open>Math.pow(2, Math.min(fan, 10))\<close>\<close>

definition fanToPoints :: "nat \<Rightarrow> int" where
  "fanToPoints fan = 2 ^ (min fan 10)"

section \<open>The wall (tile.js, wall.js)\<close>

text \<open>
  \<^verbatim>\<open>createAllTiles\<close>: four copies of each number tile, wind and dragon, one of each flower
  and season, with ids counting up from 0 in that order.
\<close>

definition allFaces :: "key list" where
  "allFaces =
     concat (map (\<lambda>s. concat (map (\<lambda>v. replicate 4 (s, v)) [1..<10])) [Wan, Tung, Sok])
     @ concat (map (\<lambda>v. replicate 4 (Wind, v)) [1..<5])
     @ concat (map (\<lambda>v. replicate 4 (Dragon, v)) [1..<4])
     @ map (\<lambda>v. (Flower, v)) [1..<5]
     @ map (\<lambda>v. (Season, v)) [1..<5]"

definition createAllTiles :: "tile list" where
  "createAllTiles = map (\<lambda>(i, (s, v)). mkTile s v i) (enumerate 0 allFaces)"

record wall =
  tiles :: "tile list"
  deadWall :: "tile list"
  drawIndex :: nat

text \<open>
  The random source is a parameter: \<open>rnd c\<close> is the number behind the \<open>c\<close>-th call of
  \<^verbatim>\<open>Math.random()\<close>, and \<^verbatim>\<open>Math.floor(Math.random() * n)\<close> is that number modulo \<open>n\<close>.
\<close>

type_synonym random_source = "nat \<Rightarrow> nat"

definition swapAt :: "'a list \<Rightarrow> nat \<Rightarrow> nat \<Rightarrow> 'a list" where
  "swapAt xs i j = (xs[i := xs ! j])[j := xs ! i]"

text \<open>The Fisher-Yates loop \<^verbatim>\<open>for (let i = tiles.length - 1; i > 0; i--)\<close>; \<open>c\<close> counts the calls
  of the random source.\<close>

fun shuffleLoop :: "random_source \<Rightarrow> nat \<Rightarrow> nat \<Rightarrow> tile list \<Rightarrow> tile list" where
  "shuffleLoop rnd c 0 ts = ts"
| "shuffleLoop rnd c (Suc i) ts =
     shuffleLoop rnd (c + 1) i (swapAt ts (Suc i) (rnd c mod (Suc i + 1)))"

definition shuffle :: "random_source \<Rightarrow> tile list \<Rightarrow> tile list" where
  "shuffle rnd ts = shuffleLoop rnd 0 (length ts - 1) ts"

text \<open>\<^verbatim>\<open>Wall.build\<close>: the last 14 tiles of the shuffled array are spliced off as the dead wall.\<close>

definition build :: "random_source \<Rightarrow> wall" where
  "build rnd =
     (let ts = shuffle rnd createAllTiles
      in \<lparr>tiles = take (length ts - 14) ts, deadWall = drop (length ts - 14) ts,
          drawIndex = 0\<rparr>)"

text \<open>\<^verbatim>\<open>Wall.draw\<close> and \<^verbatim>\<open>Wall.drawFromDeadWall\<close>; \<open>None\<close> is \<^verbatim>\<open>null\<close>.\<close>

definition draw :: "wall \<Rightarrow> tile option \<times> wall" where
  "draw w =
     (if drawIndex w \<ge> length (tiles w) then (None, w)
      else (Some (tiles w ! drawIndex w), w\<lparr>drawIndex := drawIndex w + 1\<rparr>))"

definition drawFromDeadWall :: "wall \<Rightarrow> tile option \<times> wall" where
  "drawFromDeadWall w =
     (if length (deadWall w) = 0 then (None, w)
      else (Some (last (deadWall w)), w\<lparr>deadWall := butlast (deadWall w)\<rparr>))"

definition remaining :: "wall \<Rightarrow> nat" where
  "remaining w = length (tiles w) - drawIndex w"

text \<open>
  \<^verbatim>\<open>Wall.deal\<close>.  One step is \<^verbatim>\<open>hands[idx].push(this.draw())\<close>; the pushed value is \<^verbatim>\<open>null\<close> when
  the wall is exhausted.  The nested loops push to the seats \<open>(dealerIndex + p) % 4\<close> for
  \<open>p = 0..3\<close>, four times each, in three rounds; then once each; then once more to
  \<^verbatim>\<open>hands[dealerIndex]\<close>, which is \<^verbatim>\<open>undefined\<close> (a TypeError) for an index outside 0..3.
\<close>

definition dealStep :: "nat \<Rightarrow> tile option list list \<times> wall \<Rightarrow> tile option list list \<times> wall" where
  "dealStep idx st =
     (let (hs, w) = st; (t, w') = draw w in (hs[idx := hs ! idx @ [t]], w'))"

definition dealOrder :: "nat \<Rightarrow> nat list" where
  "dealOrder dealerIdx = map (\<lambda>p. (dealerIdx + p) mod 4) [0, 1, 2, 3]"

definition deal :: "nat \<Rightarrow> wall \<Rightarrow> js_error + (tile option list list \<times> wall)" where
  "deal dealerIdx w =
     (let rounds = concat (replicate 3 (concat (map (replicate 4) (dealOrder dealerIdx))));
          s1 = fold dealStep rounds ([[], [], [], []], w);
          s2 = fold dealStep (dealOrder dealerIdx) s1
      in if dealerIdx < 4 then Inr (dealStep dealerIdx s2) else Inl TypeError)"

section \<open>The game object (game.js)\<close>

datatype game_state =
    MENU | DICE_ROLL | DEALING | PLAYER_TURN | PLAYER_DISCARD | AI_TURN | CLAIMING
  | ROUND_END | GAME_END

datatype claim_action = WinClaim | KongClaim | PungClaim | ChowClaim

text \<open>\<^verbatim>\<open>winInfo\<close>: \<^verbatim>\<open>{ scoring, selfDrawn, fromPlayer }\<close>; a self-drawn win has no \<^verbatim>\<open>fromPlayer\<close>.\<close>

record win_info =
  wscoring :: scoring
  wselfDrawn :: bool
  wfromPlayer :: "nat option"

text \<open>
  The value of \<^verbatim>\<open>calculatePayment\<close>, without its display strings \<^verbatim>\<open>details\<close>;
  \<^verbatim>\<open>responsible\<close> is -1 when nobody is.
\<close>

record payment =
  deltas :: "int list"
  responsible :: int

text \<open>
  A callback handed to \<^verbatim>\<open>setTimeout\<close> by the computer players' moves, with the values it
  closes over: the self-drawn win of a seat with its scoring; the kong of a seat with the
  decision and the context object; the claim of a discard by a seat (seat, action, tile,
  discarder).  The callbacks all wait the same 800 ms, so they run in the order in which
  they were set.
\<close>

datatype timer =
    SelfWinTimer nat scoring
  | KongTimer nat meld_type key scoring_context
  | ClaimTimer nat claim_action tile nat

text \<open>
  The fields of \<^verbatim>\<open>Game\<close> that the rules read or write, and the pending callbacks.  Left out are the collaborators the
  rules only notify (\<^verbatim>\<open>characters\<close>, \<^verbatim>\<open>onStateChange\<close>, \<^verbatim>\<open>onUpdate\<close>, the voice manager), the
  cosmetic settings, the unused \<^verbatim>\<open>actionQueue\<close> and \<^verbatim>\<open>isProcessing\<close>, and the three \<^verbatim>\<open>AI\<close> objects,
  whose only content is the difficulty.  \<^verbatim>\<open>state\<close> is \<open>None\<close> while it is \<^verbatim>\<open>null\<close> (the lock
  set by \<^verbatim>\<open>playerDiscard\<close>); \<^verbatim>\<open>winner\<close> and \<^verbatim>\<open>lastDiscardPlayer\<close> are -1 when there is none.
\<close>

record game =
  wall :: wall
  hands :: "hand list"
  state :: "game_state option"
  currentPlayer :: nat
  dealerIndex :: nat
  gameRoundWind :: nat
  roundNumber :: nat
  seatWinds :: "nat list"
  lastDiscard :: "tile option"
  lastDiscardPlayer :: int
  turnCount :: nat
  winner :: int
  winInfo :: "win_info option"
  gameMinFan :: nat
  pendingClaims :: "claim_action list"
  gameSelfDrawn :: bool
  gameIsKongDraw :: bool
  drawnTile :: "tile option"
  scores :: "int list"
  totalRounds :: nat
  maxRounds :: nat
  paymentInfo :: "payment option"
  diceResults :: "nat list"
  diceRolled :: bool
  timers :: "timer list"

subsection \<open>Payment (scoring.js)\<close>

text \<open>\<^verbatim>\<open>m.tiles[0] && m.tiles[0].suit === s\<close>\<close>

definition firstSuitIs :: "suit \<Rightarrow> meld \<Rightarrow> bool" where
  "firstSuitIs s m = (case mtiles m of [] \<Rightarrow> False | t # _ \<Rightarrow> suit t = s)"

text \<open>
  The test made on the last meld of each kind:
  \<^verbatim>\<open>if (last.fromPlayer !== undefined && last.fromPlayer !== winner) return last.fromPlayer\<close>.
\<close>

definition feederOf :: "meld \<Rightarrow> nat \<Rightarrow> nat option" where
  "feederOf m win =
     (case fromPlayer m of None \<Rightarrow> None | Some p \<Rightarrow> if p \<noteq> win then Some p else None)"

definition isKongMeld :: "meld \<Rightarrow> bool" where
  "isKongMeld m = (mtype m = KongExposed \<or> mtype m = KongConcealed \<or> mtype m = KongAdded)"

text \<open>\<^verbatim>\<open>melds.map(m => m.tiles[0].suit)\<close>, a TypeError when a meld has no tile.\<close>

fun firstSuits :: "meld list \<Rightarrow> suit list option" where
  "firstSuits [] = Some []"
| "firstSuits (m # ms) =
     (case mtiles m of
        [] \<Rightarrow> None
      | t # _ \<Rightarrow> (case firstSuits ms of None \<Rightarrow> None | Some ss \<Rightarrow> Some (suit t # ss)))"

text \<open>
  \<^verbatim>\<open>checkBaoPai\<close>, in four steps that each either name the responsible player or fall through
  to the next.  The result is the player index, or -1.
\<close>

definition baoDragons :: "meld list \<Rightarrow> nat \<Rightarrow> nat option" where
  "baoDragons ms win =
     (let dragonMelds = filter (firstSuitIs Dragon) ms
      in if length dragonMelds \<ge> 3 then feederOf (last dragonMelds) win else None)"

definition baoWinds :: "meld list \<Rightarrow> nat \<Rightarrow> nat option" where
  "baoWinds ms win =
     (let windMelds = filter (firstSuitIs Wind) ms
      in if length windMelds \<ge> 4 then feederOf (last windMelds) win else None)"

definition baoFlush :: "meld list \<Rightarrow> nat \<Rightarrow> js_error + nat option" where
  "baoFlush ms win =
     (if length ms \<ge> 4 then
        (if sum_list (map (\<lambda>m. length (mtiles m)) ms) \<ge> 12 then
           (case firstSuits ms of
              None \<Rightarrow> Inl TypeError
            | Some ss \<Rightarrow>
                if setSize ss = 1 \<and> numberSuit (hd ss) then Inr (feederOf (last ms) win)
                else Inr None)
         else Inr None)
      else Inr None)"

definition baoKongs :: "meld list \<Rightarrow> nat \<Rightarrow> nat option" where
  "baoKongs ms win =
     (let kongMelds = filter isKongMeld ms
      in if length kongMelds \<ge> 4 then feederOf (last kongMelds) win else None)"

definition checkBaoPai :: "game \<Rightarrow> nat \<Rightarrow> js_error + int" where
  "checkBaoPai g win =
     (if win \<ge> length (hands g) then Inl TypeError
      else
        let ms = melds (hands g ! win) in
        if length ms = 0 then Inr (- 1)
        else case baoDragons ms win of
          Some p \<Rightarrow> Inr (int p)
        | None \<Rightarrow>
            (case baoWinds ms win of
               Some p \<Rightarrow> Inr (int p)
             | None \<Rightarrow>
                 (case baoFlush ms win of
                    Inl e \<Rightarrow> Inl e
                  | Inr (Some p) \<Rightarrow> Inr (int p)
                  | Inr None \<Rightarrow>
                      (case baoKongs ms win of Some p \<Rightarrow> Inr (int p) | None \<Rightarrow> Inr (- 1)))))"

text \<open>
  \<^verbatim>\<open>deltas[i] += x\<close> on the four-element array.  For an index outside the array JavaScript
  stores NaN in a new slot; the model reports that as \<open>None\<close>.
\<close>

definition addAt :: "int list \<Rightarrow> nat \<Rightarrow> int \<Rightarrow> int list option" where
  "addAt ds i x = (if i < length ds then Some (ds[i := ds ! i + x]) else None)"

text \<open>One payer paying the winner: \<^verbatim>\<open>deltas[payer] -= pay; deltas[winner] += pay\<close>.\<close>

definition transfer :: "int list \<Rightarrow> nat \<Rightarrow> nat \<Rightarrow> int \<Rightarrow> int list option" where
  "transfer ds payer win pay =
     (case addAt ds payer (- pay) of None \<Rightarrow> None | Some ds1 \<Rightarrow> addAt ds1 win pay)"

text \<open>The loop over the four seats of a self-drawn win without a responsible player.\<close>

fun selfDrawnLoop :: "nat list \<Rightarrow> nat \<Rightarrow> nat \<Rightarrow> int \<Rightarrow> int list \<Rightarrow> int list option" where
  "selfDrawnLoop [] win dealer basePoints ds = Some ds"
| "selfDrawnLoop (i # is) win dealer basePoints ds =
     (if i = win then selfDrawnLoop is win dealer basePoints ds
      else
        let pay = (if win = dealer then basePoints * 2
                   else if i = dealer then basePoints * 2 else basePoints)
        in case transfer ds i win pay of
             None \<Rightarrow> None
           | Some ds1 \<Rightarrow> selfDrawnLoop is win dealer basePoints ds1)"

datatype failure = Thrown js_error | NotANumber

text \<open>
  \<^verbatim>\<open>Scoring.calculatePayment\<close>.  \<open>Thrown\<close> is an exception of the source; \<open>NotANumber\<close> says
  that the source returns deltas with a NaN entry (an index outside 0..3, or an undefined
  \<^verbatim>\<open>fromPlayer\<close>).
\<close>

definition calculatePayment :: "game \<Rightarrow> failure + payment" where
  "calculatePayment g =
     (if winner g < 0 then Inr \<lparr>deltas = [0, 0, 0, 0], responsible = - 1\<rparr>
      else
        let win = nat (winner g) in
        case winInfo g of
          None \<Rightarrow> Inl (Thrown TypeError)
        | Some info \<Rightarrow>
            let basePoints = fanToPoints (totalFan (wscoring info));
                isDealer = (win = dealerIndex g)
            in if wselfDrawn info then
                 (case checkBaoPai g win of
                    Inl e \<Rightarrow> Inl (Thrown e)
                  | Inr resp \<Rightarrow>
                      if resp \<ge> 0 then
                        (case transfer [0, 0, 0, 0] (nat resp) win (basePoints * 3) of
                           None \<Rightarrow> Inl NotANumber
                         | Some ds \<Rightarrow> Inr \<lparr>deltas = ds, responsible = resp\<rparr>)
                      else
                        (case selfDrawnLoop [0, 1, 2, 3] win (dealerIndex g) basePoints
                                [0, 0, 0, 0] of
                           None \<Rightarrow> Inl NotANumber
                         | Some ds \<Rightarrow> Inr \<lparr>deltas = ds, responsible = - 1\<rparr>))
               else
                 (case wfromPlayer info of
                    None \<Rightarrow> Inl NotANumber
                  | Some fromP \<Rightarrow>
                      let pay = (if isDealer \<or> fromP = dealerIndex g
                                 then basePoints * 2 else basePoints)
                      in case transfer [0, 0, 0, 0] fromP win pay of
                           None \<Rightarrow> Inl NotANumber
                         | Some ds \<Rightarrow> Inr \<lparr>deltas = ds, responsible = - 1\<rparr>))"

section \<open>Changing a hand (hand.js)\<close>

definition sortHand :: "hand \<Rightarrow> hand" where
  "sortHand h = h\<lparr>concealed := sortTiles (concealed h)\<rparr>"

text \<open>\<^verbatim>\<open>setInitial\<close>, \<^verbatim>\<open>addTile\<close>, \<^verbatim>\<open>addFlower\<close>\<close>

definition setInitial :: "tile list \<Rightarrow> hand \<Rightarrow> hand" where
  "setInitial ts h = sortHand (h\<lparr>concealed := ts\<rparr>)"

definition addTile :: "tile \<Rightarrow> hand \<Rightarrow> hand" where
  "addTile t h = sortHand (h\<lparr>concealed := concealed h @ [t]\<rparr>)"

definition addFlower :: "tile \<Rightarrow> hand \<Rightarrow> hand" where
  "addFlower t h = h\<lparr>flowers := sortTiles (flowers h @ [t])\<rparr>"

text \<open>\<^verbatim>\<open>findIndex\<close> followed by \<^verbatim>\<open>splice(idx, 1)\<close>: the first element that passes the test is
  removed, if there is one.\<close>

fun removeFirst :: "('a \<Rightarrow> bool) \<Rightarrow> 'a list \<Rightarrow> 'a list" where
  "removeFirst P [] = []"
| "removeFirst P (x # xs) = (if P x then xs else x # removeFirst P xs)"

text \<open>\<^verbatim>\<open>removeTile\<close> compares ids, \<^verbatim>\<open>removeTileByKey\<close> compares keys and hands the tile back.\<close>

definition removeTile :: "tile \<Rightarrow> hand \<Rightarrow> hand" where
  "removeTile t h = h\<lparr>concealed := removeFirst (\<lambda>x. tid x = tid t) (concealed h)\<rparr>"

definition removeTileByKey :: "key \<Rightarrow> hand \<Rightarrow> tile option \<times> hand" where
  "removeTileByKey k h =
     (find (\<lambda>x. key x = k) (concealed h),
      h\<lparr>concealed := removeFirst (\<lambda>x. key x = k) (concealed h)\<rparr>)"

text \<open>\<^verbatim>\<open>discard\<close>: the tile goes on the pile whether or not it was in the hand.\<close>

definition discard :: "tile \<Rightarrow> hand \<Rightarrow> hand" where
  "discard t h = (let h1 = removeTile t h in h1\<lparr>discards := discards h1 @ [t]\<rparr>)"

definition countByKey :: "hand \<Rightarrow> key \<Rightarrow> nat" where
  "countByKey h k = length (filter (\<lambda>t. key t = k) (concealed h))"

definition canPung :: "hand \<Rightarrow> tile \<Rightarrow> bool" where
  "canPung h t = (countByKey h (key t) \<ge> 2)"

definition canKongFromDiscard :: "hand \<Rightarrow> tile \<Rightarrow> bool" where
  "canKongFromDiscard h t = (countByKey h (key t) \<ge> 3)"

text \<open>\<^verbatim>\<open>getConcealedKongs\<close>: the keys held exactly four times, in the order of first
  appearance; \<^verbatim>\<open>getAddedKongs\<close>: the keys of exposed pungs of which a tile is in hand.\<close>

definition getConcealedKongs :: "hand \<Rightarrow> key list" where
  "getConcealedKongs h = map fst (filter (\<lambda>(k, c). c = 4) (groupTiles (concealed h)))"

text \<open>\<^verbatim>\<open>meld.tiles[0].key\<close> throws for a meld without tiles.\<close>

fun getAddedKongs :: "hand \<Rightarrow> meld list \<Rightarrow> js_error + key list" where
  "getAddedKongs h [] = Inr []"
| "getAddedKongs h (m # ms) =
     (if mtype m = Pung then
        (case mtiles m of
           [] \<Rightarrow> Inl TypeError
         | t # _ \<Rightarrow>
             (case getAddedKongs h ms of
                Inl e \<Rightarrow> Inl e
              | Inr ks \<Rightarrow> Inr (if countByKey h (key t) \<ge> 1 then key t # ks else ks)))
      else getAddedKongs h ms)"

text \<open>\<^verbatim>\<open>canChow\<close>: the list of pairs of keys that complete a run with the discard.\<close>

definition canChow :: "hand \<Rightarrow> tile \<Rightarrow> (key \<times> key) list" where
  "canChow h t =
     (if \<not> isNumberSuit t then []
      else
        let s = suit t; v = val t;
            low = (if v \<ge> 3 \<and> countByKey h (s, v - 2) > 0 \<and> countByKey h (s, v - 1) > 0
                   then [((s, v - 2), (s, v - 1))] else []);
            mid = (if v \<ge> 2 \<and> v \<le> 8 \<and> countByKey h (s, v - 1) > 0 \<and> countByKey h (s, v + 1) > 0
                   then [((s, v - 1), (s, v + 1))] else []);
            high = (if v \<le> 7 \<and> countByKey h (s, v + 1) > 0 \<and> countByKey h (s, v + 2) > 0
                    then [((s, v + 1), (s, v + 2))] else [])
        in low @ mid @ high)"

text \<open>
  The loop shared by the meld operations: \<^verbatim>\<open>removeTileByKey\<close> once for each key of the list,
  the tiles found are pushed to \<^verbatim>\<open>tiles\<close>.
\<close>

fun takeByKeys :: "key list \<Rightarrow> tile list \<Rightarrow> hand \<Rightarrow> tile list \<times> hand" where
  "takeByKeys [] acc h = (acc, h)"
| "takeByKeys (k # ks) acc h =
     (case removeTileByKey k h of
        (None, h1) \<Rightarrow> takeByKeys ks acc h1
      | (Some t, h1) \<Rightarrow> takeByKeys ks (acc @ [t]) h1)"

definition pushMeld :: "meld_type \<Rightarrow> tile list \<Rightarrow> hand \<Rightarrow> hand" where
  "pushMeld ty ts h = h\<lparr>melds := melds h @ [\<lparr>mtype = ty, mtiles = ts, fromPlayer = None\<rparr>]\<rparr>"

definition doChow :: "tile \<Rightarrow> key \<times> key \<Rightarrow> hand \<Rightarrow> hand" where
  "doChow t combo h =
     (let (ts, h1) = takeByKeys [fst combo, snd combo] [t] h
      in pushMeld Chow (sortTiles ts) h1)"

definition doPung :: "tile \<Rightarrow> hand \<Rightarrow> hand" where
  "doPung t h =
     (let (ts, h1) = takeByKeys (replicate 2 (key t)) [t] h in pushMeld Pung ts h1)"

definition doKongExposed :: "tile \<Rightarrow> hand \<Rightarrow> hand" where
  "doKongExposed t h =
     (let (ts, h1) = takeByKeys (replicate 3 (key t)) [t] h in pushMeld KongExposed ts h1)"

definition doKongConcealed :: "key \<Rightarrow> hand \<Rightarrow> hand" where
  "doKongConcealed k h =
     (let (ts, h1) = takeByKeys (replicate 4 k) [] h in pushMeld KongConcealed ts h1)"

text \<open>
  \<^verbatim>\<open>doKongAdded\<close>: the first pung of the key gets the tile and becomes an added kong.  The
  search \<^verbatim>\<open>m.type === MELD_TYPE.PUNG && m.tiles[0].key === key\<close> throws at a pung without
  tiles that it reaches.
\<close>

fun findPung :: "key \<Rightarrow> meld list \<Rightarrow> js_error + nat option" where
  "findPung k [] = Inr None"
| "findPung k (m # ms) =
     (if mtype m = Pung then
        (case mtiles m of
           [] \<Rightarrow> Inl TypeError
         | t # _ \<Rightarrow>
             if key t = k then Inr (Some 0)
             else (case findPung k ms of
                     Inl e \<Rightarrow> Inl e
                   | Inr None \<Rightarrow> Inr None
                   | Inr (Some i) \<Rightarrow> Inr (Some (Suc i))))
      else (case findPung k ms of
              Inl e \<Rightarrow> Inl e
            | Inr None \<Rightarrow> Inr None
            | Inr (Some i) \<Rightarrow> Inr (Some (Suc i))))"

definition doKongAdded :: "key \<Rightarrow> hand \<Rightarrow> js_error + hand" where
  "doKongAdded k h =
     (case findPung k (melds h) of
        Inl e \<Rightarrow> Inl e
      | Inr None \<Rightarrow> Inr h
      | Inr (Some i) \<Rightarrow>
          (case removeTileByKey k h of
             (None, h1) \<Rightarrow> Inr h1
           | (Some t, h1) \<Rightarrow>
               Inr (h1\<lparr>melds := (melds h1)[i := (melds h1 ! i)\<lparr>mtiles := mtiles (melds h1 ! i) @ [t],
                                                               mtype := KongAdded\<rparr>]\<rparr>)))"

section \<open>Bonus tiles and hand size (game.js)\<close>

text \<open>
  The replacement draw of \<^verbatim>\<open>_handleFlowerBloom\<close>: from the dead wall, and from the live wall
  when the dead wall gives nothing.
\<close>

definition replacementDraw :: "wall \<Rightarrow> tile option \<times> wall" where
  "replacementDraw w =
     (case drawFromDeadWall w of
        (Some t, w1) \<Rightarrow> (Some t, w1)
      | (None, w1) \<Rightarrow> draw w1)"

text \<open>
  The inner loop \<^verbatim>\<open>for (let i = hand.concealed.length - 1; i >= 0; i--)\<close>; the first argument
  is \<open>i + 1\<close>.  A replaced tile is spliced out and the replacement pushed, so the length of
  the array stays what it was when the loop started and \<open>i\<close> stays inside it.
\<close>

fun bloomFor :: "nat \<Rightarrow> hand \<Rightarrow> wall \<Rightarrow> bool \<Rightarrow> hand \<times> wall \<times> bool" where
  "bloomFor 0 h w found = (h, w, found)"
| "bloomFor (Suc i) h w found =
     (if i < length (concealed h) \<and> isBonus (concealed h ! i) then
        (case replacementDraw w of
           (None, w1) \<Rightarrow> bloomFor i h w1 found
         | (Some r, w1) \<Rightarrow>
             bloomFor i
               ((addFlower (concealed h ! i)
                   (h\<lparr>concealed := take i (concealed h) @ drop (Suc i) (concealed h)\<rparr>))
                \<lparr>concealed := take i (concealed h) @ drop (Suc i) (concealed h) @ [r]\<rparr>)
               w1 True)
      else bloomFor i h w found)"

definition wallSize :: "wall \<Rightarrow> nat" where
  "wallSize w = length (deadWall w) + remaining w"

lemma replacementDraw_size:
  "replacementDraw w = (r, w1) \<Longrightarrow>
   (r = None \<longrightarrow> wallSize w1 = wallSize w) \<and> (r \<noteq> None \<longrightarrow> wallSize w1 < wallSize w)"
  by (auto simp: replacementDraw_def drawFromDeadWall_def draw_def wallSize_def remaining_def
           split: if_splits prod.splits option.splits)

lemma bloomFor_size:
  "bloomFor i h w found = (h1, w1, found1) \<Longrightarrow>
   wallSize w1 \<le> wallSize w \<and> (found1 \<and> \<not> found \<longrightarrow> wallSize w1 < wallSize w)"
proof (induction i arbitrary: h w found)
  case 0
  then show ?case by simp
next
  case (Suc i)
  show ?case
  proof (cases "i < length (concealed h) \<and> isBonus (concealed h ! i)")
    case False
    with Suc.prems have "bloomFor i h w found = (h1, w1, found1)" by auto
    from Suc.IH [OF this] show ?thesis .
  next
    case True
    obtain r w2 where rd: "replacementDraw w = (r, w2)" by (cases "replacementDraw w")
    show ?thesis
    proof (cases r)
      case None
      with True rd Suc.prems have "bloomFor i h w2 found = (h1, w1, found1)" by simp
      from Suc.IH [OF this] replacementDraw_size [OF rd] None show ?thesis by simp
    next
      case (Some t)
      with True rd Suc.prems obtain h2 where "bloomFor i h2 w2 True = (h1, w1, found1)" by simp
      from Suc.IH [OF this] replacementDraw_size [OF rd] Some show ?thesis by simp
    qed
  qed
qed

text \<open>The outer loop \<^verbatim>\<open>while (foundBonus)\<close>.\<close>

function bloomWhile :: "hand \<Rightarrow> wall \<Rightarrow> hand \<times> wall" where
  "bloomWhile h w =
     (case bloomFor (length (concealed h)) h w False of
        (h1, w1, found) \<Rightarrow> if found then bloomWhile h1 w1 else (h1, w1))"
  by pat_completeness auto
termination
proof (relation "measure (\<lambda>(h, w). wallSize w)", goal_cases)
  case 1
  show ?case by simp
next
  case 2
  then show ?case
    using bloomFor_size by (metis (no_types, lifting) case_prod_conv in_measure)
qed

declare bloomWhile.simps [simp del]

text \<open>\<^verbatim>\<open>_handleFlowerBloom\<close> for one hand and the wall.\<close>

definition handleFlowerBloom :: "hand \<Rightarrow> wall \<Rightarrow> hand \<times> wall" where
  "handleFlowerBloom h w = (case bloomWhile h w of (h1, w1) \<Rightarrow> (sortHand h1, w1))"

datatype phase = BeforeDiscard | AfterDiscard

text \<open>\<^verbatim>\<open>while (target % 3 !== expectedMod && target > 0) target--\<close>\<close>

function lowerTarget :: "nat \<Rightarrow> nat \<Rightarrow> nat" where
  "lowerTarget target expectedMod =
     (if target mod 3 \<noteq> expectedMod \<and> target > 0 then lowerTarget (target - 1) expectedMod
      else target)"
  by pat_completeness auto
termination
  by (relation "measure fst") auto

declare lowerTarget.simps [simp del]

lemma bloomWhile_size: "bloomWhile h w = (h1, w1) \<Longrightarrow> wallSize w1 \<le> wallSize w"
proof (induction h w rule: bloomWhile.induct)
  case (1 h w)
  obtain h2 w2 found where b: "bloomFor (length (concealed h)) h w False = (h2, w2, found)"
    by (cases "bloomFor (length (concealed h)) h w False")
  show ?case
  proof (cases found)
    case True
    with b 1(2) have "bloomWhile h2 w2 = (h1, w1)" by (subst (asm) bloomWhile.simps) simp
    from 1(1) [OF b [symmetric] refl True this] bloomFor_size [OF b] show ?thesis by simp
  next
    case False
    with b 1(2) have "w1 = w2" by (subst (asm) bloomWhile.simps) simp
    with bloomFor_size [OF b] show ?thesis by simp
  qed
qed

lemma handleFlowerBloom_size: "handleFlowerBloom h w = (h1, w1) \<Longrightarrow> wallSize w1 \<le> wallSize w"
  by (auto simp: handleFlowerBloom_def split: prod.splits dest: bloomWhile_size)

lemma draw_size: "draw w = (Some t, w1) \<Longrightarrow> wallSize w1 < wallSize w"
  by (auto simp: draw_def wallSize_def remaining_def split: if_splits)

text \<open>
  The loop that tops a short hand up from the live wall:
  \<^verbatim>\<open>while (hand.concealed.length < target) { extra = draw(); if (!extra) break; ... }\<close>
\<close>

function drawUpTo :: "nat \<Rightarrow> hand \<Rightarrow> wall \<Rightarrow> hand \<times> wall" where
  "drawUpTo target h w =
     (if length (concealed h) < target then
        (case draw w of
           (None, w1) \<Rightarrow> (h, w1)
         | (Some extra, w1) \<Rightarrow>
             (case handleFlowerBloom (addTile extra h) w1 of
                (h2, w2) \<Rightarrow> drawUpTo target h2 w2))
      else (h, w))"
  by pat_completeness auto
termination
proof (relation "measure (\<lambda>(t, h, w). wallSize w)", goal_cases)
  case 1
  show ?case by simp
next
  case 2
  then show ?case
    using handleFlowerBloom_size draw_size
    by (metis (no_types, lifting) case_prod_conv in_measure order_le_less_trans)
qed

declare drawUpTo.simps [simp del]

text \<open>The loop that moves excess tiles to the discard pile:
  \<^verbatim>\<open>while (hand.concealed.length > target) hand.discards.push(hand.concealed.pop())\<close>\<close>

function popDownTo :: "nat \<Rightarrow> hand \<Rightarrow> hand" where
  "popDownTo target h =
     (if length (concealed h) > target
      then popDownTo target
             (h\<lparr>concealed := butlast (concealed h), discards := discards h @ [last (concealed h)]\<rparr>)
      else h)"
  by pat_completeness auto
termination
  by (relation "measure (\<lambda>(t, h). length (concealed h))") auto

declare popDownTo.simps [simp del]

text \<open>\<^verbatim>\<open>_validateHandSize\<close> for one hand and the wall.\<close>

definition validateHandSize :: "phase \<Rightarrow> hand \<Rightarrow> wall \<Rightarrow> hand \<times> wall" where
  "validateHandSize ph h w =
     (let actual = length (concealed h);
          expectedMod = (if ph = BeforeDiscard then 2 else 1)
      in if actual mod 3 \<noteq> expectedMod then
           (let t0 = lowerTarget actual expectedMod;
                target = (if t0 \<le> 0 then expectedMod else t0)
            in if actual < target then
                 (case drawUpTo target h w of (h1, w1) \<Rightarrow> (sortHand h1, w1))
               else if actual > target then (popDownTo target h, w)
               else (h, w))
         else (h, w))"

section \<open>The state machine (game.js)\<close>

text \<open>
  The computer players decide with \<^verbatim>\<open>Math.random()\<close> and with heuristics that no statement
  below depends on.  Their two open choices are parameters: which claim a seat makes on a
  discard (\<^verbatim>\<open>decideClaim\<close>) and which tile of its hand it discards (\<^verbatim>\<open>chooseDiscard\<close>, as an
  index into the concealed tiles: all three difficulties return an element of
  \<^verbatim>\<open>hand.concealed\<close>).  Both may look at the whole game.
\<close>

record strategy =
  decideClaim :: "game \<Rightarrow> nat \<Rightarrow> tile \<Rightarrow> bool \<Rightarrow> claim_action option"
  chooseDiscard :: "game \<Rightarrow> nat \<Rightarrow> nat"

text \<open>\<^verbatim>\<open>AI.decideKong\<close> is determined by the hand: the first concealed kong, else the first
  added kong.\<close>

definition decideKong :: "hand \<Rightarrow> js_error + (meld_type \<times> key) option" where
  "decideKong h =
     (case getConcealedKongs h of
        k # _ \<Rightarrow> Inr (Some (KongConcealed, k))
      | [] \<Rightarrow>
          (case getAddedKongs h (melds h) of
             Inl e \<Rightarrow> Inl e
           | Inr (k # _) \<Rightarrow> Inr (Some (KongAdded, k))
           | Inr [] \<Rightarrow> Inr None))"

text \<open>\<^verbatim>\<open>this.seatWinds[playerIndex]\<close>; outside the array the value is \<^verbatim>\<open>undefined\<close>, which is
  no wind: 0 stands for it.\<close>

definition seatWindOf :: "game \<Rightarrow> nat \<Rightarrow> nat" where
  "seatWindOf g p = (if p < length (seatWinds g) then seatWinds g ! p else 0)"

definition getContext :: "nat \<Rightarrow> game \<Rightarrow> scoring_context" where
  "getContext p g =
     \<lparr>seatWind = seatWindOf g p, roundWind = gameRoundWind g, selfDrawn = gameSelfDrawn g,
      isLastTile = (remaining (wall g) \<le> 0), isKongDraw = gameIsKongDraw g,
      minFan = gameMinFan g\<rparr>"

definition setHand :: "nat \<Rightarrow> hand \<Rightarrow> game \<Rightarrow> game" where
  "setHand p h g = g\<lparr>hands := (hands g)[p := h]\<rparr>"

text \<open>\<^verbatim>\<open>this.hands[i]\<close> for an \<^verbatim>\<open>i\<close> that may be -1.\<close>

definition handAt :: "game \<Rightarrow> int \<Rightarrow> hand option" where
  "handAt g i = (if 0 \<le> i \<and> nat i < length (hands g) then Some (hands g ! nat i) else None)"

text \<open>\<^verbatim>\<open>_applyPayment\<close>; \<^verbatim>\<open>scores\<close> has four entries from the constructor on.\<close>

definition applyPayment :: "game \<Rightarrow> failure + game" where
  "applyPayment g =
     (case calculatePayment g of
        Inl e \<Rightarrow> Inl e
      | Inr pay \<Rightarrow>
          Inr (g\<lparr>paymentInfo := Some pay,
                 scores := map (\<lambda>(sc, d). sc + d) (zip (scores g) (deltas pay)),
                 totalRounds := totalRounds g + 1\<rparr>))"

text \<open>\<^verbatim>\<open>_handleDraw\<close>: the drawn round.\<close>

definition handleDraw :: "game \<Rightarrow> failure + game" where
  "handleDraw g = applyPayment (g\<lparr>winner := - 1, winInfo := None, state := Some ROUND_END\<rparr>)"

text \<open>\<^verbatim>\<open>_advanceTurn\<close>; \<^verbatim>\<open>lastDiscardPlayer\<close> is never below -1, so the remainder is taken of
  a number that is not negative.\<close>

definition advanceTurn :: "game \<Rightarrow> game" where
  "advanceTurn g =
     (let cp = nat ((lastDiscardPlayer g + 1) mod 4)
      in g\<lparr>currentPlayer := cp, turnCount := turnCount g + 1,
           state := Some (if cp = 0 then PLAYER_TURN else AI_TURN)\<rparr>)"

text \<open>
  The tile is pushed to the hand, the hand sorted, and the tile removed again by its id:
  what \<^verbatim>\<open>_processClaims\<close> does to the human hand around its win test, and \<^verbatim>\<open>_canWinWith\<close> to
  the hand of a computer player.
\<close>

definition probeAdd :: "tile \<Rightarrow> hand \<Rightarrow> hand" where
  "probeAdd t h = sortHand (h\<lparr>concealed := concealed h @ [t]\<rparr>)"

definition probeRemove :: "tile \<Rightarrow> hand \<Rightarrow> hand" where
  "probeRemove t h = h\<lparr>concealed := removeFirst (\<lambda>x. tid x = tid t) (concealed h)\<rparr>"

text \<open>\<^verbatim>\<open>_executeAIClaim\<close> only sets the callback.\<close>

definition executeAIClaim :: "nat \<Rightarrow> claim_action \<Rightarrow> tile \<Rightarrow> nat \<Rightarrow> game \<Rightarrow> game" where
  "executeAIClaim p a t fromP g = g\<lparr>timers := timers g @ [ClaimTimer p a t fromP]\<rparr>"

definition claimPriority :: "claim_action \<Rightarrow> int" where
  "claimPriority a = (if a = WinClaim then 3 else if a = KongClaim \<or> a = PungClaim then 2 else 1)"

text \<open>The actions offered to the human seat for a discard.\<close>

definition humanActions :: "game \<Rightarrow> tile \<Rightarrow> bool \<Rightarrow> js_error + (claim_action list \<times> hand)" where
  "humanActions g t isNextPlayer =
     (let ctx = getContext 0 g;
          h1 = probeAdd t (hands g ! 0)
      in case (if canWin h1
               then (case calculate h1 (ctx\<lparr>selfDrawn := False\<rparr>) of
                       Inl e \<Rightarrow> Inl e
                     | Inr sc \<Rightarrow> Inr (meetsMinimum (totalFan sc) (gameMinFan g)))
               else Inr False) of
           Inl e \<Rightarrow> Inl e
         | Inr winOk \<Rightarrow>
             let h2 = probeRemove t h1
             in Inr ((if winOk then [WinClaim] else [])
                     @ (if canKongFromDiscard h2 t then [KongClaim] else [])
                     @ (if canPung h2 t then [PungClaim] else [])
                     @ (if isNextPlayer \<and> length (canChow h2 t) > 0 then [ChowClaim] else []),
                     h2))"

text \<open>
  The loop of \<^verbatim>\<open>_processClaims\<close> over the seats 0..3, with \<^verbatim>\<open>bestClaim\<close> and \<^verbatim>\<open>bestPriority\<close>,
  and what follows the loop.
\<close>

fun claimLoop ::
  "strategy \<Rightarrow> tile \<Rightarrow> nat \<Rightarrow> nat list \<Rightarrow> (nat \<times> claim_action) option \<Rightarrow> int \<Rightarrow> game
   \<Rightarrow> failure + game" where
  "claimLoop ai t fromP [] best bestPriority g =
     (case best of
        Some (p, a) \<Rightarrow> Inr (executeAIClaim p a t fromP g)
      | None \<Rightarrow> Inr (advanceTurn g))"
| "claimLoop ai t fromP (i # rest) best bestPriority g =
     (if i = fromP then claimLoop ai t fromP rest best bestPriority g
      else if i \<ge> length (hands g) then Inl (Thrown TypeError)
      else
        let isNextPlayer = ((fromP + 1) mod 4 = i) in
        if i = 0 then
          (case humanActions g t isNextPlayer of
             Inl e \<Rightarrow> Inl (Thrown e)
           | Inr (actions, h2) \<Rightarrow>
               if length actions > 0
               then Inr ((setHand 0 h2 g)\<lparr>pendingClaims := actions, state := Some CLAIMING\<rparr>)
               else claimLoop ai t fromP rest best bestPriority (setHand 0 h2 g))
        else
          (let claim = decideClaim ai g i t isNextPlayer;
               g1 = setHand i (probeRemove t (probeAdd t (hands g ! i))) g
           in case claim of
                None \<Rightarrow> claimLoop ai t fromP rest best bestPriority g1
              | Some a \<Rightarrow>
                  if claimPriority a > bestPriority
                  then claimLoop ai t fromP rest (Some (i, a)) (claimPriority a) g1
                  else claimLoop ai t fromP rest best bestPriority g1))"

definition processClaims :: "strategy \<Rightarrow> tile \<Rightarrow> nat \<Rightarrow> game \<Rightarrow> failure + game" where
  "processClaims ai t fromP g = claimLoop ai t fromP [0, 1, 2, 3] None (- 1) g"

text \<open>\<^verbatim>\<open>playerDraw\<close> and \<^verbatim>\<open>playerDiscard\<close>, with the boolean they return.\<close>

definition playerDraw :: "game \<Rightarrow> failure + (bool \<times> game)" where
  "playerDraw g =
     (if state g \<noteq> Some PLAYER_TURN then Inr (False, g)
      else
        case draw (wall g) of
          (None, w1) \<Rightarrow>
            (case handleDraw (g\<lparr>wall := w1\<rparr>) of
               Inl e \<Rightarrow> Inl e
             | Inr g1 \<Rightarrow> Inr (False, g1))
        | (Some t, w1) \<Rightarrow>
            if length (hands g) = 0 then Inl (Thrown TypeError)
            else
              (case handleFlowerBloom (addTile t (hands g ! 0)) w1 of
                 (h1, w2) \<Rightarrow>
                   (case validateHandSize BeforeDiscard h1 w2 of
                      (h2, w3) \<Rightarrow>
                        Inr (True,
                             (setHand 0 h2 g)
                               \<lparr>wall := w3, drawnTile := (if isBonus t then None else Some t),
                                gameSelfDrawn := True, gameIsKongDraw := False,
                                state := Some PLAYER_DISCARD\<rparr>))))"

definition playerDiscard :: "strategy \<Rightarrow> tile \<Rightarrow> game \<Rightarrow> failure + (bool \<times> game)" where
  "playerDiscard ai t g =
     (if state g \<noteq> Some PLAYER_DISCARD then Inr (False, g)
      else if length (hands g) = 0 then Inl (Thrown TypeError)
      else
        let g1 = (setHand 0 (discard t (hands g ! 0)) (g\<lparr>state := None\<rparr>))
                   \<lparr>lastDiscard := Some t, lastDiscardPlayer := 0, gameSelfDrawn := False,
                    drawnTile := None\<rparr>
        in case processClaims ai t 0 g1 of
             Inl e \<Rightarrow> Inl e
           | Inr g2 \<Rightarrow> Inr (True, g2))"

text \<open>The kong replacement as the four kong paths write it:
  \<^verbatim>\<open>const replacement = this.wall.drawFromDeadWall(); if (replacement) { ... }\<close>.\<close>

definition kongReplacement :: "nat \<Rightarrow> game \<Rightarrow> game" where
  "kongReplacement p g =
     (case drawFromDeadWall (wall g) of
        (None, w1) \<Rightarrow> g\<lparr>wall := w1\<rparr>
      | (Some r, w1) \<Rightarrow>
          (case handleFlowerBloom (addTile r (hands g ! p)) w1 of
             (h1, w2) \<Rightarrow>
               (setHand p h1 g)\<lparr>wall := w2, gameIsKongDraw := True, gameSelfDrawn := True\<rparr>))"

definition validatePlayer :: "nat \<Rightarrow> phase \<Rightarrow> game \<Rightarrow> game" where
  "validatePlayer p ph g =
     (case validateHandSize ph (hands g ! p) (wall g) of
        (h1, w1) \<Rightarrow> (setHand p h1 g)\<lparr>wall := w1\<rparr>)"

text \<open>\<^verbatim>\<open>hand.melds[hand.melds.length - 1].fromPlayer = this.lastDiscardPlayer\<close>\<close>

definition tagLastMeld :: "nat \<Rightarrow> hand \<Rightarrow> hand" where
  "tagLastMeld fromP h =
     h\<lparr>melds := butlast (melds h) @ [(last (melds h))\<lparr>fromPlayer := Some fromP\<rparr>]\<rparr>"

text \<open>
  \<^verbatim>\<open>playerClaim\<close>.  Without a \<^verbatim>\<open>lastDiscard\<close> every branch throws (the hand is sorted or
  the key of the tile is read).  The win branch returns before the discard pile is
  touched; the other branches go on to \<^verbatim>\<open>this.hands[this.lastDiscardPlayer].discards\<close>,
  which throws when there is no such hand.  A \<^verbatim>\<open>lastDiscardPlayer\<close> of -1 is stored in
  \<^verbatim>\<open>winInfo.fromPlayer\<close> as it is; it indexes nothing, as an absent \<open>wfromPlayer\<close> does.
\<close>

definition playerClaim :: "claim_action \<Rightarrow> (key \<times> key) option \<Rightarrow> game \<Rightarrow> failure + game" where
  "playerClaim action chowCombo g =
     (case lastDiscard g of
        None \<Rightarrow> Inl (Thrown TypeError)
      | Some t \<Rightarrow>
          if length (hands g) = 0 then Inl (Thrown TypeError)
          else
            let h = hands g ! 0 in
            if action = WinClaim then
              (let h1 = addTile t h;
                   g1 = setHand 0 h1 g;
                   ctx = (getContext 0 g1)\<lparr>selfDrawn := False\<rparr>
               in case calculate h1 ctx of
                    Inl e \<Rightarrow> Inl (Thrown e)
                  | Inr sc \<Rightarrow>
                      applyPayment
                        (g1\<lparr>winner := 0,
                            winInfo :=
                              Some \<lparr>wscoring = sc, wselfDrawn = False,
                                    wfromPlayer = (if 0 \<le> lastDiscardPlayer g
                                                   then Some (nat (lastDiscardPlayer g))
                                                   else None)\<rparr>,
                            state := Some ROUND_END\<rparr>))
            else
              (case handAt g (lastDiscardPlayer g) of
                 None \<Rightarrow> Inl (Thrown TypeError)
               | Some discardHand \<Rightarrow>
                   (let fromP = nat (lastDiscardPlayer g) in
                    case (if action = KongClaim then
                            Inr ((kongReplacement 0
                                    (setHand 0 (tagLastMeld fromP (doKongExposed t h)) g))
                                   \<lparr>state := Some PLAYER_DISCARD\<rparr>)
                          else if action = PungClaim then
                            Inr ((setHand 0 (tagLastMeld fromP (doPung t h)) g)
                                   \<lparr>state := Some PLAYER_DISCARD\<rparr>)
                          else
                            (case chowCombo of
                               None \<Rightarrow> Inl (Thrown TypeError)
                             | Some combo \<Rightarrow>
                                 Inr ((setHand 0 (tagLastMeld fromP (doChow t combo h)) g)
                                        \<lparr>state := Some PLAYER_DISCARD\<rparr>))) of
                      Inl e \<Rightarrow> Inl e
                    | Inr g1 \<Rightarrow>
                        (let dh = hands g1 ! fromP;
                             g2 = setHand fromP
                                    (dh\<lparr>discards :=
                                          removeFirst (\<lambda>x. tid x = tid t) (discards dh)\<rparr>) g1
                         in Inr (validatePlayer 0 BeforeDiscard g2)))))"

text \<open>\<^verbatim>\<open>playerKong\<close>; \<open>ty\<close> is the string compared with \<^verbatim>\<open>'kong_concealed'\<close> and
  \<^verbatim>\<open>'kong_added'\<close>.\<close>

definition playerKong :: "meld_type \<Rightarrow> key \<Rightarrow> game \<Rightarrow> failure + game" where
  "playerKong ty k g =
     (if length (hands g) = 0 then Inl (Thrown TypeError)
      else
        case (if ty = KongConcealed then Inr (doKongConcealed k (hands g ! 0))
              else if ty = KongAdded then doKongAdded k (hands g ! 0)
              else Inr (hands g ! 0)) of
          Inl e \<Rightarrow> Inl (Thrown e)
        | Inr h1 \<Rightarrow>
            Inr ((validatePlayer 0 BeforeDiscard (kongReplacement 0 (setHand 0 h1 g)))
                   \<lparr>state := Some PLAYER_DISCARD\<rparr>))"

text \<open>\<^verbatim>\<open>playerPass\<close>\<close>

definition playerPass :: "game \<Rightarrow> game" where
  "playerPass g = advanceTurn g"


subsection \<open>Starting a round\<close>

definition newHand :: "nat \<Rightarrow> hand" where
  "newHand i = \<lparr>playerIndex = i, concealed = [], melds = [], flowers = [], discards = []\<rparr>"

text \<open>\<^verbatim>\<open>_handleFlowerBloom(p)\<close> and \<^verbatim>\<open>_validateHandSize(i, phase)\<close> on the hands and the wall of
  a round that is being set up.\<close>

definition bloomSeat :: "nat \<Rightarrow> hand list \<times> wall \<Rightarrow> hand list \<times> wall" where
  "bloomSeat p st =
     (case st of (hs, w) \<Rightarrow>
        (case handleFlowerBloom (hs ! p) w of (h1, w1) \<Rightarrow> (hs[p := h1], w1)))"

definition validateSeat :: "nat \<Rightarrow> nat \<Rightarrow> hand list \<times> wall \<Rightarrow> hand list \<times> wall" where
  "validateSeat dealer i st =
     (case st of (hs, w) \<Rightarrow>
        (case validateHandSize (if i = dealer then BeforeDiscard else AfterDiscard) (hs ! i) w of
           (h1, w1) \<Rightarrow> (hs[i := h1], w1)))"

text \<open>
  \<^verbatim>\<open>startRound\<close>.  A dealt \<^verbatim>\<open>null\<close> would make \<^verbatim>\<open>setInitial\<close> throw in the comparison of the
  sort.
\<close>

definition startRound :: "random_source \<Rightarrow> game \<Rightarrow> failure + game" where
  "startRound rnd g =
     (let d = dealerIndex g;
          winds = map (\<lambda>i. ((i + 4 - d) mod 4) + 1) [0, 1, 2, 3]
      in case deal d (build rnd) of
           Inl e \<Rightarrow> Inl (Thrown e)
         | Inr (dealt, w1) \<Rightarrow>
             (case those (map those dealt) of
                None \<Rightarrow> Inl (Thrown TypeError)
              | Some tss \<Rightarrow>
                  (let hs0 = map (\<lambda>i. setInitial (tss ! i) (newHand i)) [0, 1, 2, 3];
                       st1 = fold bloomSeat (map (\<lambda>i. (d + i) mod 4) [0, 1, 2, 3]) (hs0, w1);
                       st2 = fold (validateSeat d) [0, 1, 2, 3] st1
                   in Inr (g\<lparr>wall := snd st2, hands := fst st2, seatWinds := winds,
                              currentPlayer := d, lastDiscard := None,
                              lastDiscardPlayer := - 1, turnCount := 0, winner := - 1,
                              winInfo := None, gameSelfDrawn := True,
                              gameIsKongDraw := False, drawnTile := None,
                              state := Some (if d = 0 then PLAYER_DISCARD else AI_TURN)\<rparr>))))"

text \<open>The remainder of JavaScript takes the sign of the dividend.\<close>

definition jsRem :: "int \<Rightarrow> int \<Rightarrow> int" where
  "jsRem a b = sgn a * (\<bar>a\<bar> mod \<bar>b\<bar>)"

text \<open>\<^verbatim>\<open>startGame\<close>, \<^verbatim>\<open>rollDice\<close>, \<^verbatim>\<open>confirmDice\<close>\<close>

definition startGame :: "game \<Rightarrow> game" where
  "startGame g =
     g\<lparr>gameRoundWind := 1, dealerIndex := 0, roundNumber := 0, totalRounds := 0,
       scores := [10000, 10000, 10000, 10000], diceResults := [0, 0, 0], diceRolled := False,
       state := Some DICE_ROLL\<rparr>"

definition rollDice :: "random_source \<Rightarrow> game \<Rightarrow> game" where
  "rollDice rnd g =
     (if diceRolled g then g
      else g\<lparr>diceResults := [rnd 0 mod 6 + 1, rnd 1 mod 6 + 1, rnd 2 mod 6 + 1],
             diceRolled := True\<rparr>)"

text \<open>
  \<^verbatim>\<open>confirmDice\<close>.  For a sum of 0 the remainder is -1, and \<^verbatim>\<open>startRound\<close> throws in \<^verbatim>\<open>deal\<close>
  at \<^verbatim>\<open>hands[-1]\<close>.
\<close>

definition confirmDice :: "random_source \<Rightarrow> game \<Rightarrow> failure + game" where
  "confirmDice rnd g =
     (let total = sum_list (diceResults g);
          d = jsRem (int total - 1) 4
      in if d < 0 then Inl (Thrown TypeError)
         else startRound rnd (g\<lparr>dealerIndex := nat d\<rparr>))"

subsection \<open>The turns of the computer players\<close>

text \<open>
  The discard of a computer player: \<^verbatim>\<open>chooseDiscard\<close>, \<^verbatim>\<open>hand.discard\<close>, and the claims on
  the tile.  Seat 0 has no \<^verbatim>\<open>AI\<close> object (\<^verbatim>\<open>this.ai[-1]\<close>), so the call throws; an empty hand
  gives \<^verbatim>\<open>undefined\<close>, on which the claim search throws.  \<^verbatim>\<open>_finishAITurn\<close> also clears
  \<^verbatim>\<open>_selfDrawn\<close> and \<^verbatim>\<open>_drawnTile\<close>; the claim callbacks do not.
\<close>

definition aiDiscard :: "strategy \<Rightarrow> nat \<Rightarrow> bool \<Rightarrow> game \<Rightarrow> failure + game" where
  "aiDiscard ai p resetFlags g =
     (let h = hands g ! p in
      if p = 0 \<or> length (concealed h) = 0 then Inl (Thrown TypeError)
      else
        let t = concealed h ! (chooseDiscard ai g p mod length (concealed h));
            g1 = (setHand p (discard t h) g)\<lparr>lastDiscard := Some t, lastDiscardPlayer := int p\<rparr>;
            g2 = (if resetFlags then g1\<lparr>gameSelfDrawn := False, drawnTile := None\<rparr> else g1)
        in processClaims ai t p g2)"

text \<open>\<^verbatim>\<open>_finishAITurn\<close>\<close>

definition finishAITurn :: "strategy \<Rightarrow> nat \<Rightarrow> game \<Rightarrow> failure + game" where
  "finishAITurn ai p g = aiDiscard ai p True g"

text \<open>The win of a seat, as the callbacks record it.\<close>

definition recordWin :: "nat \<Rightarrow> scoring \<Rightarrow> bool \<Rightarrow> nat option \<Rightarrow> game \<Rightarrow> failure + game" where
  "recordWin p sc sd fromP g =
     applyPayment
       (g\<lparr>winner := int p,
          winInfo := Some \<lparr>wscoring = sc, wselfDrawn = sd, wfromPlayer = fromP\<rparr>,
          state := Some ROUND_END\<rparr>)"

text \<open>
  The draw at the start of \<^verbatim>\<open>processAITurn\<close>, skipped by a seat that already holds 14
  tiles; \<open>None\<close> when the wall is exhausted.
\<close>

definition aiDraw :: "nat \<Rightarrow> game \<Rightarrow> game option" where
  "aiDraw p g =
     (if length (concealed (hands g ! p)) = 14 then Some g
      else
        case draw (wall g) of
          (None, w1) \<Rightarrow> None
        | (Some t, w1) \<Rightarrow>
            (case handleFlowerBloom (addTile t (hands g ! p)) w1 of
               (h1, w2) \<Rightarrow>
                 Some ((setHand p h1 g)
                         \<lparr>wall := w2, gameSelfDrawn := True, gameIsKongDraw := False\<rparr>)))"

text \<open>
  The test for a win after a draw: the scoring when the hand wins with at least the minimum
  fan.  It sets \<^verbatim>\<open>selfDrawn\<close> (and, after a kong, \<^verbatim>\<open>isKongDraw\<close>) in the context object it is
  given, which is returned too.
\<close>

definition winCheck ::
  "hand \<Rightarrow> scoring_context \<Rightarrow> bool \<Rightarrow> nat \<Rightarrow> js_error + (scoring option \<times> scoring_context)" where
  "winCheck h ctx kongDraw minimumFan =
     (if canWin h then
        (let ctx1 = (if kongDraw then ctx\<lparr>selfDrawn := True, isKongDraw := True\<rparr>
                     else ctx\<lparr>selfDrawn := True\<rparr>)
         in case calculate h ctx1 of
              Inl e \<Rightarrow> Inl e
            | Inr sc \<Rightarrow>
                Inr (if meetsMinimum (totalFan sc) minimumFan then Some sc else None, ctx1))
      else Inr (None, ctx))"

text \<open>
  \<^verbatim>\<open>processAITurn\<close>.  \<^verbatim>\<open>this.ai[p - 1]\<close> is \<^verbatim>\<open>undefined\<close> for seat 0 and is first used at
  \<^verbatim>\<open>ai.decideKong\<close>.  The context object is built before the draw.
\<close>

definition processAITurn :: "strategy \<Rightarrow> game \<Rightarrow> failure + game" where
  "processAITurn ai g =
     (if state g \<noteq> Some AI_TURN then Inr g
      else
        let p = currentPlayer g in
        if p \<ge> length (hands g) then Inl (Thrown TypeError)
        else
          let ctx = getContext p g in
          case aiDraw p g of
            None \<Rightarrow> handleDraw g
          | Some g1 \<Rightarrow>
              (let g2 = validatePlayer p BeforeDiscard g1;
                   h = hands g2 ! p
               in case winCheck h ctx False (gameMinFan g2) of
                    Inl e \<Rightarrow> Inl (Thrown e)
                  | Inr (Some sc, ctx1) \<Rightarrow>
                      Inr (g2\<lparr>timers := timers g2 @ [SelfWinTimer p sc]\<rparr>)
                  | Inr (None, ctx1) \<Rightarrow>
                      if p = 0 then Inl (Thrown TypeError)
                      else
                        (case decideKong h of
                           Inl e \<Rightarrow> Inl (Thrown e)
                         | Inr (Some (ty, k)) \<Rightarrow>
                             Inr (g2\<lparr>timers := timers g2 @ [KongTimer p ty k ctx1]\<rparr>)
                         | Inr None \<Rightarrow> finishAITurn ai p g2)))"

text \<open>
  The callback of a computer player's kong on its own turn.  Unlike the human paths it
  sets \<^verbatim>\<open>_isKongDraw\<close> only.
\<close>

definition kongCallback ::
  "strategy \<Rightarrow> nat \<Rightarrow> meld_type \<Rightarrow> key \<Rightarrow> scoring_context \<Rightarrow> game \<Rightarrow> failure + game" where
  "kongCallback ai p ty k ctx g =
     (if p \<ge> length (hands g) then Inl (Thrown TypeError)
      else
        case (if ty = KongConcealed then Inr (doKongConcealed k (hands g ! p))
              else doKongAdded k (hands g ! p)) of
          Inl e \<Rightarrow> Inl (Thrown e)
        | Inr h1 \<Rightarrow>
            (case drawFromDeadWall (wall g) of
               (None, w1) \<Rightarrow> finishAITurn ai p (setHand p h1 g)
             | (Some r, w1) \<Rightarrow>
                 (case handleFlowerBloom (addTile r h1) w1 of
                    (h2, w2) \<Rightarrow>
                      (let g1 = (setHand p h2 g)\<lparr>wall := w2, gameIsKongDraw := True\<rparr>
                       in case winCheck h2 ctx True (gameMinFan g1) of
                            Inl e \<Rightarrow> Inl (Thrown e)
                          | Inr (Some sc, ctx1) \<Rightarrow> recordWin p sc True None g1
                          | Inr (None, ctx1) \<Rightarrow> finishAITurn ai p g1))))"

text \<open>
  The callback of \<^verbatim>\<open>_executeAIClaim\<close>.  It first takes the tile off the discarder's pile,
  then acts.
\<close>

definition claimCallback ::
  "strategy \<Rightarrow> nat \<Rightarrow> claim_action \<Rightarrow> tile \<Rightarrow> nat \<Rightarrow> game \<Rightarrow> failure + game" where
  "claimCallback ai p action t fromP g =
     (if p \<ge> length (hands g) then Inr g
      else if fromP \<ge> length (hands g) then Inl (Thrown TypeError)
      else
        let dh = hands g ! fromP;
            g0 = setHand fromP
                   (dh\<lparr>discards := removeFirst (\<lambda>x. tid x = tid t) (discards dh)\<rparr>) g;
            h = hands g0 ! p
        in if action = WinClaim then
             (let h1 = addTile t h;
                  g1 = setHand p h1 g0
              in case calculate h1 ((getContext p g1)\<lparr>selfDrawn := False\<rparr>) of
                   Inl e \<Rightarrow> Inl (Thrown e)
                 | Inr sc \<Rightarrow> recordWin p sc False (Some fromP) g1)
           else if action = PungClaim then
             aiDiscard ai p False (setHand p (tagLastMeld fromP (doPung t h)) g0)
           else if action = ChowClaim then
             (case canChow h t of
                [] \<Rightarrow> Inl (Thrown TypeError)
              | combo # _ \<Rightarrow>
                  aiDiscard ai p False (setHand p (tagLastMeld fromP (doChow t combo h)) g0))
           else
             (let h1 = tagLastMeld fromP (doKongExposed t h) in
              case drawFromDeadWall (wall g0) of
                (None, w1) \<Rightarrow>
                  aiDiscard ai p False (validatePlayer p BeforeDiscard (setHand p h1 g0))
              | (Some r, w1) \<Rightarrow>
                  (case handleFlowerBloom (addTile r h1) w1 of
                     (h2, w2) \<Rightarrow>
                       (let g1 = (setHand p h2 g0)\<lparr>wall := w2\<rparr>
                        in case winCheck h2 (getContext p g1) True (gameMinFan g1) of
                             Inl e \<Rightarrow> Inl (Thrown e)
                           | Inr (Some sc, ctx1) \<Rightarrow> recordWin p sc True None g1
                           | Inr (None, ctx1) \<Rightarrow>
                               aiDiscard ai p False (validatePlayer p BeforeDiscard g1)))))"

text \<open>Running the oldest pending callback.\<close>

definition runTimer :: "strategy \<Rightarrow> game \<Rightarrow> failure + game" where
  "runTimer ai g =
     (case timers g of
        [] \<Rightarrow> Inr g
      | tm # rest \<Rightarrow>
          (let g1 = g\<lparr>timers := rest\<rparr> in
           case tm of
             SelfWinTimer p sc \<Rightarrow> recordWin p sc True None g1
           | KongTimer p ty k ctx \<Rightarrow> kongCallback ai p ty k ctx g1
           | ClaimTimer p action t fromP \<Rightarrow> claimCallback ai p action t fromP g1))"

section \<open>Properties of the win search\<close>

text \<open>\<^verbatim>\<open>_decompose\<close> succeeds exactly when \<^verbatim>\<open>_tryRemoveSets\<close> does.\<close>

lemma decompose_tryRemoveSets:
  "(decompose g ks i r \<noteq> None) = tryRemoveSets g ks i (fst r \<noteq> None)"
proof (induction g ks i r rule: decompose.induct)
  case (1 groups keys keyIdx0 result)
  show ?case
  proof (cases "length keys \<le> skipZero groups keys keyIdx0")
    case True
    then show ?thesis
      by (subst decompose.simps, subst tryRemoveSets.simps) (simp add: Let_def)
  next
    case False
    show ?thesis
    proof (cases "map_of groups (keys ! skipZero groups keys keyIdx0)")
      case None
      with False show ?thesis
        by (subst decompose.simps, subst tryRemoveSets.simps) (simp add: Let_def)
    next
      case (Some c)
      note ih1 = 1(1) [OF refl False refl Some]
      note ih2 = 1(2) [OF refl False refl Some]
      note ih3 = 1(3) [OF refl False refl Some]
      show ?thesis
        apply (subst decompose.simps, subst tryRemoveSets.simps)
        apply (simp only: Let_def False Some if_False option.case)
        apply (cases "fst result = None \<and> 2 \<le> c")
        subgoal
          apply (cases "decompose (AList.update (keys ! skipZero groups keys keyIdx0) (c - 2) groups) keys (skipZero groups keys keyIdx0) (Some (keys ! skipZero groups keys keyIdx0), snd result)")
          subgoal
            apply (cases "3 \<le> c")
            subgoal
              apply (cases "decompose (AList.update (keys ! skipZero groups keys keyIdx0) (c - 3) groups) keys (skipZero groups keys keyIdx0) (fst result, snd result @ [mkSet Pung (keys ! skipZero groups keys keyIdx0)])")
              using ih1 ih2 ih3 by (auto split: if_splits)
            using ih1 ih2 ih3 by (auto split: if_splits)
          using ih1 ih2 ih3 by (auto split: if_splits)
        subgoal
            apply (cases "3 \<le> c")
            subgoal
              apply (cases "decompose (AList.update (keys ! skipZero groups keys keyIdx0) (c - 3) groups) keys (skipZero groups keys keyIdx0) (fst result, snd result @ [mkSet Pung (keys ! skipZero groups keys keyIdx0)])")
              using ih1 ih2 ih3 by (auto split: if_splits)
            using ih1 ih2 ih3 by (auto split: if_splits)
          done
    qed
  qed
qed

lemma cnt_update: "cnt (AList.update k v g) k' = (if k' = k then v else cnt g k')"
  by (simp add: cnt_def update_conv')

lemma k2_neq: "k2 k \<noteq> k" "k3 k \<noteq> k" "k3 k \<noteq> k2 k"
  by (simp_all add: k2_def k3_def prod_eq_iff)

lemma cnt_takeChow:
  "cnt (takeChow k g) k' =
     (if k' = k then cnt g k - 1 else if k' = k2 k then cnt g (k2 k) - 1
      else if k' = k3 k then cnt g (k3 k) - 1 else cnt g k')"
  using k2_neq [of k] by (auto simp: takeChow_def Let_def cnt_update)

lemma skipZero_ge: "i \<le> skipZero g ks i"
proof (induction g ks i rule: skipZero.induct)
  case (1 groups keys keyIdx)
  show ?case
  proof (cases "keyIdx < length keys \<and> map_of groups (keys ! keyIdx) = Some 0")
    case True
    with 1 show ?thesis by (simp add: skipZero_step)
  next
    case False
    then show ?thesis by (simp add: skipZero_stop)
  qed
qed

lemma skipZero_skipped:
  "i \<le> j \<Longrightarrow> j < skipZero g ks i \<Longrightarrow> cnt g (ks ! j) = 0"
proof (induction g ks i rule: skipZero.induct)
  case (1 groups keys keyIdx)
  show ?case
  proof (cases "keyIdx < length keys \<and> map_of groups (keys ! keyIdx) = Some 0")
    case True
    show ?thesis
    proof (cases "j = keyIdx")
      case True
      with \<open>keyIdx < length keys \<and> map_of groups (keys ! keyIdx) = Some 0\<close>
      show ?thesis by (simp add: cnt_def)
    next
      case False
      with 1 True show ?thesis by (simp add: skipZero_step)
    qed
  next
    case False
    with 1 show ?thesis by (simp add: skipZero_stop)
  qed
qed

text \<open>The search invariant: counts are zero off the key list and before the cursor.\<close>

definition searchInv :: "counts \<Rightarrow> key list \<Rightarrow> nat \<Rightarrow> bool" where
  "searchInv g ks i = ((\<forall>k. k \<notin> set ks \<longrightarrow> cnt g k = 0) \<and> (\<forall>j<i. j < length ks \<longrightarrow> cnt g (ks ! j) = 0))"

lemma searchInv_skip: "searchInv g ks i \<Longrightarrow> searchInv g ks (skipZero g ks i)"
  unfolding searchInv_def
  by (metis not_le_imp_less skipZero_skipped)

lemma searchInv_all_zero:
  assumes "searchInv g ks i" "length ks \<le> i"
  shows "cnt g k = 0"
proof (cases "k \<in> set ks")
  case True
  then obtain j where "j < length ks" "ks ! j = k" by (auto simp: in_set_conv_nth)
  with assms show ?thesis by (auto simp: searchInv_def)
next
  case False
  with assms show ?thesis by (cases k) (simp add: searchInv_def)
qed

lemma searchInv_update:
  assumes "searchInv g ks i" "i < length ks" "cnt g (ks ! i) \<noteq> 0"
  shows "searchInv (AList.update (ks ! i) v g) ks i"
  using assms unfolding searchInv_def by (auto simp: cnt_update)

lemma cnt_takeChow_zero: "cnt g k' = 0 \<Longrightarrow> cnt (takeChow k g) k' = 0"
  using k2_neq [of k] by (auto simp: cnt_takeChow)

lemma searchInv_takeChow:
  assumes "searchInv g ks i"
  shows "searchInv (takeChow k g) ks i"
  using assms unfolding searchInv_def by (simp add: cnt_takeChow_zero)

lemma count_resultKeys_pair:
  "fst r = None \<Longrightarrow> count_list (resultKeys (Some k, snd r)) k' = count_list (resultKeys r) k' + (if k' = k then 2 else 0)"
  by (simp add: resultKeys_def pairKeys_def)

lemma count_resultKeys_pung:
  "count_list (resultKeys (fst r, snd r @ [mkSet Pung k])) k' = count_list (resultKeys r) k' + (if k' = k then 3 else 0)"
  by (simp add: resultKeys_def setKeys_def mkSet_def)

lemma count_resultKeys_chow:
  "count_list (resultKeys (fst r, snd r @ [mkSet Chow k])) k' =
   count_list (resultKeys r) k' + (if k' = k then 1 else 0) + (if k' = k2 k then 1 else 0) + (if k' = k3 k then 1 else 0)"
  using k2_neq [of k] by (auto simp add: resultKeys_def setKeys_def mkSet_def)

lemma decompose_counts:
  "decompose g ks i r = Some r' \<Longrightarrow> searchInv g ks i \<Longrightarrow>
   fst r' \<noteq> None \<and> (\<forall>k. count_list (resultKeys r') k = count_list (resultKeys r) k + cnt g k)"
proof (induction g ks i r rule: decompose.induct)
  case (1 groups keys keyIdx0 result)
  let ?i = "skipZero groups keys keyIdx0"
  have inv: "searchInv groups keys ?i" using 1(5) by (rule searchInv_skip)
  show ?case
  proof (cases "length keys \<le> ?i")
    case True
    with 1(4) have "fst result \<noteq> None \<and> r' = result"
      by (subst (asm) decompose.simps) (simp add: Let_def split: if_splits)
    with searchInv_all_zero [OF inv True] show ?thesis by simp
  next
    case False
    let ?key = "keys ! ?i"
    show ?thesis
    proof (cases "map_of groups ?key")
      case None
      with False 1(4) show ?thesis
        by (subst (asm) decompose.simps) (simp add: Let_def)
    next
      case (Some c)
      have cpos: "0 < c" using skipZero_positive [of groups keys keyIdx0 c] False Some by simp
      have cntkey: "cnt groups ?key = c" using Some by (simp add: cnt_def)
      have invu: "\<And>v. searchInv (AList.update ?key v groups) keys ?i"
        using searchInv_update [OF inv] False cntkey cpos by simp
      note ih1 = 1(1) [OF refl False refl Some]
      note ih2 = 1(2) [OF refl False refl Some]
      note ih3 = 1(3) [OF refl False refl Some]
      let ?dA = "if fst result = None \<and> 2 \<le> c
                 then decompose (AList.update ?key (c - 2) groups) keys ?i (Some ?key, snd result)
                 else None"
      let ?dB = "if 3 \<le> c
                 then decompose (AList.update ?key (c - 3) groups) keys ?i
                        (fst result, snd result @ [mkSet Pung ?key])
                 else None"
      let ?dC = "if chowPossible groups ?key
                 then decompose (takeChow ?key groups) keys ?i
                        (fst result, snd result @ [mkSet Chow ?key])
                 else None"
      have unfold: "decompose groups keys keyIdx0 result =
          (case ?dA of Some r \<Rightarrow> Some r | None \<Rightarrow> (case ?dB of Some r \<Rightarrow> Some r | None \<Rightarrow> ?dC))"
        by (subst decompose.simps) (simp only: Let_def False Some if_False option.case)
      show ?thesis
      proof (cases ?dA)
        case (Some ra)
        then have A: "fst result = None \<and> 2 \<le> c"
          and dA: "decompose (AList.update ?key (c - 2) groups) keys ?i (Some ?key, snd result) = Some ra"
          by (auto split: if_splits)
        from unfold Some 1(4) have "ra = r'" by simp
        with ih1 [OF A] dA invu have
          "fst r' \<noteq> None \<and> (\<forall>k. count_list (resultKeys r') k =
             count_list (resultKeys (Some ?key, snd result)) k + cnt (AList.update ?key (c - 2) groups) k)"
          by simp
        with A cntkey show ?thesis
          by (auto simp: count_resultKeys_pair cnt_update)
      next
        case None
        note dA = None
        show ?thesis
        proof (cases ?dB)
          case (Some rb)
          then have B: "3 \<le> c"
            and dB: "decompose (AList.update ?key (c - 3) groups) keys ?i
                        (fst result, snd result @ [mkSet Pung ?key]) = Some rb"
            by (auto split: if_splits)
          from unfold dA Some 1(4) have "rb = r'" by simp
          with ih2 [OF dA B] dB invu have
            "fst r' \<noteq> None \<and> (\<forall>k. count_list (resultKeys r') k =
               count_list (resultKeys (fst result, snd result @ [mkSet Pung ?key])) k
               + cnt (AList.update ?key (c - 3) groups) k)"
            by simp
          with B cntkey show ?thesis
            by (auto simp: count_resultKeys_pung cnt_update)
        next
          case None
          note dB = None
          from unfold dA dB 1(4) have dC: "?dC = Some r'" by simp
          then have C: "chowPossible groups ?key"
            and dC': "decompose (takeChow ?key groups) keys ?i
                        (fst result, snd result @ [mkSet Chow ?key]) = Some r'"
            by (auto split: if_splits)
          from ih3 [OF dA dB C] dC' searchInv_takeChow [OF inv] have
            "fst r' \<noteq> None \<and> (\<forall>k. count_list (resultKeys r') k =
               count_list (resultKeys (fst result, snd result @ [mkSet Chow ?key])) k
               + cnt (takeChow ?key groups) k)"
            by simp
          with C cntkey cpos show ?thesis
            using k2_neq [of ?key]
            by (auto simp: count_resultKeys_chow cnt_takeChow chowPossible_def)
        qed
      qed
    qed
  qed
qed

section \<open>Soundness of the win decomposition\<close>

lemma cnt_fold_bump:
  "cnt (fold (\<lambda>t g. bump (key t) g) ts g0) k = cnt g0 k + count_list (map key ts) k"
  by (induction ts arbitrary: g0) (auto simp: bump_def cnt_update)

lemma cnt_Nil: "cnt [] k = 0"
  by (simp add: cnt_def)

lemma cnt_groupTiles: "cnt (groupTiles ts) k = count_list (map key ts) k"
  by (simp add: groupTiles_def cnt_fold_bump cnt_Nil)

lemma keys_fold_bump:
  "fst ` set (fold (\<lambda>t g. bump (key t) g) ts g0) = fst ` set g0 \<union> key ` set ts"
  by (induction ts arbitrary: g0) (auto simp: bump_def dom_update)

lemma keys_groupTiles: "set (map fst (groupTiles ts)) = key ` set ts"
  by (simp add: groupTiles_def keys_fold_bump)

lemma distinct_fold_bump:
  "distinct (map fst g0) \<Longrightarrow> distinct (map fst (fold (\<lambda>t g. bump (key t) g) ts g0))"
  by (induction ts arbitrary: g0) (auto simp: bump_def distinct_update)

lemma distinct_groupTiles: "distinct (map fst (groupTiles ts))"
  by (simp add: groupTiles_def distinct_fold_bump)

lemma cnt_absent: "k \<notin> set (map fst g) \<Longrightarrow> cnt g k = 0"
  by (simp add: cnt_def map_of_eq_None_iff [THEN iffD2])

lemma searchInv_start: "searchInv g (map fst g) 0"
  by (simp add: searchInv_def cnt_absent)

text \<open>
  The keys of a standard decomposition together with its exposed melds, and the keys of the
  tiles of a hand that take part in sets: the concealed tiles and the tiles of the melds
  (bonus tiles are kept apart in \<^verbatim>\<open>flowers\<close> and never belong to a set).
\<close>

definition decompositionKeys :: "key option \<Rightarrow> wset list \<Rightarrow> meld list \<Rightarrow> key list" where
  "decompositionKeys pair sets ms =
     pairKeys pair @ concat (map setKeys sets) @ map key (concat (map mtiles ms))"

definition handKeys :: "hand \<Rightarrow> key list" where
  "handKeys h = map key (concealed h) @ map key (concat (map mtiles (melds h)))"

lemma standard_win_decomposes:
  assumes "checkStandardWin ts"
  shows "decompose (groupTiles ts) (map fst (groupTiles ts)) 0 (None, []) \<noteq> None"
  using assms decompose_tryRemoveSets [of "groupTiles ts" "map fst (groupTiles ts)" 0 "(None, [])"]
  by (simp add: checkStandardWin_def Let_def)

lemma canWin_decomposition: "canWin h \<Longrightarrow> getWinDecomposition h \<noteq> None"
  using standard_win_decomposes [of "concealed h"]
  by (auto simp: canWin_def getWinDecomposition_def Let_def split: if_splits option.splits)

lemma standard_decomposition_keys:
  assumes "getWinDecomposition h = Some (Standard pair sets ms)"
  shows "pair \<noteq> None \<and> ms = melds h
         \<and> mset (pairKeys pair @ concat (map setKeys sets)) = mset (map key (concealed h))"
proof -
  let ?g = "groupTiles (concealed h)"
  from assms have d: "decompose ?g (map fst ?g) 0 (None, []) = Some (pair, sets)" and m: "ms = melds h"
    by (auto simp: getWinDecomposition_def Let_def split: if_splits option.splits)
  from decompose_counts [OF d searchInv_start]
  have p: "pair \<noteq> None"
    and c0: "\<And>k. count_list (resultKeys (pair, sets)) k
               = count_list (resultKeys (None, [])) k + cnt ?g k"
    by auto
  have e: "resultKeys (None, []) = []"
    by (simp add: resultKeys_def pairKeys_def)
  have c: "\<And>k. count_list (resultKeys (pair, sets)) k = count_list (map key (concealed h)) k"
    by (simp add: c0 e cnt_groupTiles)
  have "mset (resultKeys (pair, sets)) = mset (map key (concealed h))"
    by (rule multiset_eqI) (simp only: count_mset c)
  with p m show ?thesis by (simp add: resultKeys_def)
qed

text \<open>
  A hand used to show the statement at work: a pung of one-wan, the runs 2-3-4 and 5-6-7 of
  wan, a pung of one-tung and a pair of five-tung, all concealed.
\<close>

definition exampleHand :: hand where
  "exampleHand =
     \<lparr>playerIndex = 0,
      concealed = [mkTile Wan 1 0, mkTile Wan 1 1, mkTile Wan 1 2, mkTile Wan 2 4,
                   mkTile Wan 3 8, mkTile Wan 4 12, mkTile Wan 5 16, mkTile Wan 6 20,
                   mkTile Wan 7 24, mkTile Tung 1 36, mkTile Tung 1 37, mkTile Tung 1 38,
                   mkTile Tung 5 52, mkTile Tung 5 53],
      melds = [], flowers = [], discards = []\<rparr>"

text \<open>
  Claim C2.  Whenever \<^verbatim>\<open>canWin()\<close> is true, \<^verbatim>\<open>getWinDecomposition()\<close> is not null; and when
  its value is a standard decomposition, the pair is set, the melds are the melds of the
  hand, and the tiles named by the pair, the sets and the melds are, as a multiset of
  (suit, value) keys, exactly the concealed tiles and meld tiles of the hand.
\<close>

theorem win_decomposition_sound:
  "canWin h \<Longrightarrow>
     getWinDecomposition h \<noteq> None \<and>
     (\<forall>pair sets ms. getWinDecomposition h = Some (Standard pair sets ms) \<longrightarrow>
        pair \<noteq> None \<and> ms = melds h \<and>
        mset (decompositionKeys pair sets ms) = mset (handKeys h))"
  using canWin_decomposition [of h] standard_decomposition_keys [of h]
  by (fastforce simp: decompositionKeys_def handKeys_def)

theorem win_decomposition_sound_witness:
  "canWin exampleHand \<and>
   getWinDecomposition exampleHand =
     Some (Standard (Some (Tung, 5))
       [mkSet Pung (Wan, 1), mkSet Chow (Wan, 2), mkSet Chow (Wan, 5), mkSet Pung (Tung, 1)] []) \<and>
   mset (decompositionKeys (Some (Tung, 5))
       [mkSet Pung (Wan, 1), mkSet Chow (Wan, 2), mkSet Chow (Wan, 5), mkSet Pung (Tung, 1)] [])
     = mset (handKeys exampleHand)"
proof -
  have w: "canWin exampleHand"
    by code_simp
  have d: "getWinDecomposition exampleHand =
     Some (Standard (Some (Tung, 5))
       [mkSet Pung (Wan, 1), mkSet Chow (Wan, 2), mkSet Chow (Wan, 5), mkSet Pung (Tung, 1)] [])"
    by code_simp
  from win_decomposition_sound [OF w] d w show ?thesis
    by blast
qed

section \<open>Seven pairs\<close>

text \<open>Seven pairs, in the words of the rule.\<close>

definition sevenPairsHand :: "hand \<Rightarrow> bool" where
  "sevenPairsHand h =
     (melds h = [] \<and> length (concealed h) = 14 \<and> card (key ` set (concealed h)) = 7 \<and>
      (\<forall>k \<in> key ` set (concealed h). count_list (map key (concealed h)) k = 2))"

lemma length_groupTiles: "length (groupTiles ts) = card (key ` set ts)"
proof -
  have "length (groupTiles ts) = length (map fst (groupTiles ts))" by simp
  also have "\<dots> = card (set (map fst (groupTiles ts)))"
    using distinct_groupTiles [of ts] by (simp only: distinct_card)
  also have "\<dots> = card (key ` set ts)" using keys_groupTiles [of ts] by simp
  finally show ?thesis .
qed

lemma groupTiles_entry:
  "(k, c) \<in> set (groupTiles ts) \<Longrightarrow> k \<in> key ` set ts \<and> c = count_list (map key ts) k"
proof -
  assume a: "(k, c) \<in> set (groupTiles ts)"
  then have "map_of (groupTiles ts) k = Some c"
    using distinct_groupTiles [of ts] by simp
  then have "cnt (groupTiles ts) k = c" by (simp add: cnt_def)
  moreover from a have "k \<in> fst ` set (groupTiles ts)" by force
  ultimately show ?thesis using keys_groupTiles [of ts] by (simp add: cnt_groupTiles)
qed

lemma groupTiles_entry_exists:
  "k \<in> key ` set ts \<Longrightarrow> (k, count_list (map key ts) k) \<in> set (groupTiles ts)"
proof -
  assume "k \<in> key ` set ts"
  then have "k \<in> fst ` set (groupTiles ts)" using keys_groupTiles [of ts] by simp
  then obtain c where c: "(k, c) \<in> set (groupTiles ts)" by force
  with groupTiles_entry [OF c] show ?thesis by simp
qed

lemma checkSevenPairs_iff:
  "checkSevenPairs ts =
     (card (key ` set ts) = 7 \<and> (\<forall>k \<in> key ` set ts. count_list (map key ts) k = 2))"
proof -
  have "list_all (\<lambda>v. v = 2) (map snd (groupTiles ts))
        = (\<forall>k \<in> key ` set ts. count_list (map key ts) k = 2)"
    using groupTiles_entry [of _ _ ts] groupTiles_entry_exists [of _ ts]
    by (fastforce simp: list_all_iff)
  then show ?thesis
    by (simp add: checkSevenPairs_def Let_def length_groupTiles)
qed

lemma sevenPairs_decomposition:
  "sevenPairsHand h \<Longrightarrow> getWinDecomposition h = Some (SpecialHand SevenPairs (concealed h))"
  by (simp add: sevenPairsHand_def getWinDecomposition_def Let_def checkSevenPairs_iff)

lemma checkFlush_append: "checkFlush ts ms bd = bd @ checkFlush ts ms []"
  by (simp add: checkFlush_def Let_def)

lemma checkFlush_cases:
  "checkFlush ts ms [] = [] \<or> checkFlush ts ms [] = [(CleanFlushFan, 7)]
   \<or> checkFlush ts ms [] = [(MixedFlushFan, 3)]"
  by (simp add: checkFlush_def Let_def)

lemma sumFan_append: "sumFan (a @ b) = sumFan a + sumFan b"
  by (simp add: sumFan_def)

lemma sumFan_checkFlush_le: "sumFan (checkFlush ts ms []) \<le> 7"
  using checkFlush_cases [of ts ms] by (auto simp: sumFan_def)

lemma names_checkFlush: "fst ` set (checkFlush ts ms []) \<subseteq> {CleanFlushFan, MixedFlushFan}"
  using checkFlush_cases [of ts ms] by auto

text \<open>The value of the seven-pairs branch of \<^verbatim>\<open>Scoring.calculate\<close>.\<close>

lemma calculate_sevenPairs:
  assumes "getWinDecomposition h = Some (SpecialHand SevenPairs ts)"
  shows "calculate h ctx =
     Inr (if list_all isHonour ts
          then \<lparr>totalFan = 13, breakdown = [(SevenPairsFan, 4), (AllHonoursFan, 13)]\<rparr>
          else \<lparr>totalFan = 4 + sumFan (checkFlush ts (melds h) [])
                             + (if selfDrawn ctx then 1 else 0),
                breakdown = (SevenPairsFan, 4) # checkFlush ts (melds h) []
                             @ (if selfDrawn ctx then [(SelfDrawnFan, 1)] else [])\<rparr>)"
proof -
  have f: "checkFlush ts (melds h) [(SevenPairsFan, 4)]
           = (SevenPairsFan, 4) # checkFlush ts (melds h) []"
    using checkFlush_append [of ts "melds h" "[(SevenPairsFan, 4)]"] by simp
  have s: "sumFan ((SevenPairsFan, 4) # checkFlush ts (melds h) [])
           = 4 + sumFan (checkFlush ts (melds h) [])"
    by (simp add: sumFan_def)
  show ?thesis
    using sumFan_checkFlush_le [of ts "melds h"]
    by (simp add: calculate_def assms Let_def MAX_FAN_def f s)
qed

definition pairsHand :: hand where
  "pairsHand =
     \<lparr>playerIndex = 0,
      concealed = [mkTile Wan 2 4, mkTile Wan 2 5, mkTile Wan 3 8, mkTile Wan 3 9,
                   mkTile Wan 4 12, mkTile Wan 4 13, mkTile Wan 5 16, mkTile Wan 5 17,
                   mkTile Wan 6 20, mkTile Wan 6 21, mkTile Wan 7 24, mkTile Wan 7 25,
                   mkTile Wan 8 28, mkTile Wan 8 29],
      melds = [], flowers = [], discards = []\<rparr>"

definition discardContext :: scoring_context where
  "discardContext = \<lparr>seatWind = 1, roundWind = 1, selfDrawn = False, isLastTile = False,
                      isKongDraw = False, minFan = 1\<rparr>"

text \<open>
  Claim C10.  A hand without melds whose 14 concealed tiles are seven different keys, each
  held exactly twice, is decomposed as the special hand seven pairs, whatever else the tiles
  would allow; \<^verbatim>\<open>Scoring.calculate\<close> therefore scores it in its seven-pairs branch: the
  breakdown starts with seven pairs at 4 fan and holds nothing but the entries of that
  branch (all honours, a flush, self-drawn), and the total is the maximum for seven pairs of
  honours and otherwise 4 plus the flush and self-drawn additions.  The witness is a hand
  of the wan pairs 2 to 8, which is also two runs 2-3-4, two runs 5-6-7 and a pair of 8.
\<close>

theorem seven_pairs_scoring:
  assumes "sevenPairsHand h"
  shows "getWinDecomposition h = Some (SpecialHand SevenPairs (concealed h)) \<and>
         (\<exists>r. calculate h ctx = Inr r \<and>
              hd (breakdown r) = (SevenPairsFan, 4) \<and>
              fst ` set (breakdown r)
                \<subseteq> {SevenPairsFan, AllHonoursFan, CleanFlushFan, MixedFlushFan, SelfDrawnFan} \<and>
              totalFan r =
                (if list_all isHonour (concealed h) then 13
                 else 4 + sumFan (checkFlush (concealed h) [] [])
                        + (if selfDrawn ctx then 1 else 0)))"
proof -
  have d: "getWinDecomposition h = Some (SpecialHand SevenPairs (concealed h))"
    using assms by (rule sevenPairs_decomposition)
  have m: "melds h = []" using assms by (simp add: sevenPairsHand_def)
  show ?thesis
    using names_checkFlush [of "concealed h" "[]"]
    by (auto simp: d calculate_sevenPairs [OF d] m)
qed

theorem seven_pairs_scoring_witness:
  "sevenPairsHand pairsHand \<and> checkStandardWin (concealed pairsHand) \<and>
   getWinDecomposition pairsHand = Some (SpecialHand SevenPairs (concealed pairsHand)) \<and>
   calculate pairsHand discardContext
     = Inr \<lparr>totalFan = 11, breakdown = [(SevenPairsFan, 4), (CleanFlushFan, 7)]\<rparr>"
proof -
  have a: "sevenPairsHand pairsHand" by code_simp
  have b: "checkStandardWin (concealed pairsHand)" by code_simp
  have c: "calculate pairsHand discardContext
     = Inr \<lparr>totalFan = 11, breakdown = [(SevenPairsFan, 4), (CleanFlushFan, 7)]\<rparr>" by code_simp
  from seven_pairs_scoring [OF a, of discardContext] a b c show ?thesis by simp
qed

section \<open>Bounds on the fan total\<close>

subsection \<open>The maximal hands, in the words of the rules\<close>

definition wfMelds :: "hand \<Rightarrow> bool" where
  "wfMelds h = list_all (\<lambda>m. mtiles m \<noteq> []) (melds h)"

definition thirteenOrphansHand :: "hand \<Rightarrow> bool" where
  "thirteenOrphansHand h =
     (melds h = [] \<and> (\<exists>k \<in> set required. mset (map key (concealed h)) = mset (k # required)))"

definition allHonoursHand :: "hand \<Rightarrow> bool" where
  "allHonoursHand h = list_all isHonour (concealed h @ concat (map mtiles (melds h)))"

text \<open>
  A hand holds a pung or kong of a key when three of its concealed tiles have the key, or
  when one of its melds that is not a chow is made of tiles of the key.  Big four winds is a
  hand of 14 tiles, a kong counted as three, that holds a pung or kong of each of the four
  winds.
\<close>

definition holdsPung :: "hand \<Rightarrow> key \<Rightarrow> bool" where
  "holdsPung h k =
     (3 \<le> count_list (map key (concealed h)) k \<or>
      (\<exists>m \<in> set (melds h).
         mtype m \<noteq> Chow \<and> mtiles m \<noteq> [] \<and> (\<forall>t \<in> set (mtiles m). key t = k)))"

definition bigFourWindsHand :: "hand \<Rightarrow> bool" where
  "bigFourWindsHand h =
     (length (concealed h) + 3 * length (melds h) = 14 \<and>
      (\<forall>w \<in> {1, 2, 3, 4}. holdsPung h (Wind, w)))"

definition nineGatesTiles :: "suit \<Rightarrow> key list" where
  "nineGatesTiles s = map (\<lambda>v. (s, v)) [1, 1, 1, 2, 3, 4, 5, 6, 7, 8, 9, 9, 9]"

definition nineGatesHand :: "hand \<Rightarrow> bool" where
  "nineGatesHand h =
     (melds h = [] \<and>
      (\<exists>s v. numberSuit s \<and> 1 \<le> v \<and> v \<le> 9 \<and>
             mset (map key (concealed h)) = mset ((s, v) # nineGatesTiles s)))"

definition eightBonusHand :: "hand \<Rightarrow> bool" where
  "eightBonusHand h = (length (flowers h) = 8)"

subsection \<open>Bounds\<close>

lemma calculate_le: "calculate h ctx = Inr r \<Longrightarrow> totalFan r \<le> 13"
  by (auto simp: calculate_def Let_def MAX_FAN_def
           split: option.splits decomposition.splits special.splits if_splits)

lemma meldSets_wf: "list_all (\<lambda>m. mtiles m \<noteq> []) ms \<Longrightarrow> meldSets ms \<noteq> None"
  by (induction ms) (auto split: list.splits option.splits)

lemma calculate_returns: "wfMelds h \<Longrightarrow> \<exists>r. calculate h ctx = Inr r"
  using meldSets_wf [of "melds h"]
  by (auto simp: calculate_def wfMelds_def Let_def
           split: option.splits decomposition.splits special.splits)

lemma sumFan_checkFlowers: "sumFan bd \<le> sumFan (checkFlowers h ctx bd)"
  by (simp add: checkFlowers_def Let_def sumFan_def)

lemma sumFan_checkFlowers_eight:
  "length (flowers h) = 8 \<Longrightarrow> 13 \<le> sumFan (checkFlowers h ctx bd)"
  by (simp add: checkFlowers_def Let_def sumFan_def MAX_FAN_def)

lemma accumulate_eight:
  "length (flowers h) = 8 \<Longrightarrow> 13 \<le> sumFan (accumulate h ctx pair allSets allTiles)"
  by (simp add: accumulate_def Let_def sumFan_checkFlowers_eight)

lemma accumulate_bigFourWinds:
  assumes "length (filter (\<lambda>s. fst (skey s) = Wind \<and> stype s \<noteq> Chow) allSets) = 4"
  shows "13 \<le> sumFan (accumulate h ctx pair allSets allTiles)"
  unfolding accumulate_def Let_def
  apply (rule order_trans [OF _ sumFan_checkFlowers])
  apply (simp add: assms sumFan_def MAX_FAN_def)
  done

text \<open>The value of the standard branch.\<close>

lemma calculate_standard:
  assumes "getWinDecomposition h = Some (Standard pair sets ms)" "meldSets (melds h) = Some msets"
  shows "calculate h ctx =
     Inr (let allTiles = concealed h @ concat (map mtiles (melds h)) in
          if list_all isHonour allTiles
          then \<lparr>totalFan = 13, breakdown = [(AllHonoursFan, 13)]\<rparr>
          else if nineGates h allTiles
          then \<lparr>totalFan = 13, breakdown = [(NineGatesFan, 13)]\<rparr>
          else \<lparr>totalFan = min (sumFan (accumulate h ctx pair (sets @ msets) allTiles)) 13,
                breakdown = accumulate h ctx pair (sets @ msets) allTiles\<rparr>)"
  by (simp add: calculate_def assms Let_def MAX_FAN_def)

lemma calculate_thirteenOrphans:
  assumes "getWinDecomposition h = Some (SpecialHand ThirteenOrphans ts)"
  shows "calculate h ctx = Inr \<lparr>totalFan = 13, breakdown = [(ThirteenOrphansFan, 13)]\<rparr>"
  by (simp add: calculate_def assms MAX_FAN_def)

lemma eightBonus_max:
  assumes "calculate h ctx = Inr r" "eightBonusHand h" "canWin h" "\<not> sevenPairsHand h"
  shows "totalFan r = 13"
proof (cases "getWinDecomposition h")
  case None
  with canWin_decomposition [OF assms(3)] show ?thesis by simp
next
  case (Some d)
  show ?thesis
  proof (cases d)
    case (SpecialHand sp ts)
    show ?thesis
    proof (cases sp)
      case SevenPairs
      with Some SpecialHand have "sevenPairsHand h"
        by (auto simp: getWinDecomposition_def sevenPairsHand_def Let_def checkSevenPairs_iff
                 split: if_splits option.splits)
      with assms(4) show ?thesis by simp
    next
      case ThirteenOrphans
      with Some SpecialHand assms(1) show ?thesis by (auto simp: calculate_thirteenOrphans)
    qed
  next
    case (Standard pair sets ms)
    with Some have d: "getWinDecomposition h = Some (Standard pair sets ms)" by simp
    show ?thesis
    proof (cases "meldSets (melds h)")
      case None
      with d assms(1) show ?thesis by (simp add: calculate_def)
    next
      case (Some msets)
      from accumulate_eight [of h ctx pair "sets @ msets"] assms(2)
      have "\<And>ts. 13 \<le> sumFan (accumulate h ctx pair (sets @ msets) ts)"
        by (simp add: eightBonusHand_def)
      with assms(1) show ?thesis
        by (auto simp: calculate_standard [OF d Some] Let_def split: if_splits)
    qed
  qed
qed

subsection \<open>Big four winds\<close>

text \<open>The search makes a run of number tiles only.\<close>

lemma decompose_chows:
  "decompose g ks i r = Some r' \<Longrightarrow>
   \<forall>s \<in> set (snd r). stype s = Chow \<longrightarrow> numberSuit (fst (skey s)) \<Longrightarrow>
   \<forall>s \<in> set (snd r'). stype s = Chow \<longrightarrow> numberSuit (fst (skey s))"
proof (induction g ks i r rule: decompose.induct)
  case (1 groups keys keyIdx0 result)
  let ?i = "skipZero groups keys keyIdx0"
  show ?case
  proof (cases "length keys \<le> ?i")
    case True
    with 1(4) have "r' = result"
      by (subst (asm) decompose.simps) (simp add: Let_def split: if_splits)
    with 1(5) show ?thesis by simp
  next
    case False
    let ?key = "keys ! ?i"
    show ?thesis
    proof (cases "map_of groups ?key")
      case None
      with False 1(4) show ?thesis
        by (subst (asm) decompose.simps) (simp add: Let_def)
    next
      case (Some c)
      note ih1 = 1(1) [OF refl False refl Some]
      note ih2 = 1(2) [OF refl False refl Some]
      note ih3 = 1(3) [OF refl False refl Some]
      let ?dA = "if fst result = None \<and> 2 \<le> c
                 then decompose (AList.update ?key (c - 2) groups) keys ?i (Some ?key, snd result)
                 else None"
      let ?dB = "if 3 \<le> c
                 then decompose (AList.update ?key (c - 3) groups) keys ?i
                        (fst result, snd result @ [mkSet Pung ?key])
                 else None"
      let ?dC = "if chowPossible groups ?key
                 then decompose (takeChow ?key groups) keys ?i
                        (fst result, snd result @ [mkSet Chow ?key])
                 else None"
      have unfold: "decompose groups keys keyIdx0 result =
          (case ?dA of Some r \<Rightarrow> Some r | None \<Rightarrow> (case ?dB of Some r \<Rightarrow> Some r | None \<Rightarrow> ?dC))"
        by (subst decompose.simps) (simp only: Let_def False Some if_False option.case)
      show ?thesis
      proof (cases ?dA)
        case (Some ra)
        then have A: "fst result = None \<and> 2 \<le> c"
          and dA: "decompose (AList.update ?key (c - 2) groups) keys ?i (Some ?key, snd result) = Some ra"
          by (auto split: if_splits)
        from unfold Some 1(4) have "ra = r'" by simp
        with ih1 [OF A] dA 1(5) show ?thesis by simp
      next
        case None
        note dA = None
        show ?thesis
        proof (cases ?dB)
          case (Some rb)
          then have B: "3 \<le> c"
            and dB: "decompose (AList.update ?key (c - 3) groups) keys ?i
                        (fst result, snd result @ [mkSet Pung ?key]) = Some rb"
            by (auto split: if_splits)
          from unfold dA Some 1(4) have "rb = r'" by simp
          with ih2 [OF dA B] dB 1(5) show ?thesis by (simp add: mkSet_def)
        next
          case None
          note dB = None
          from unfold dA dB 1(4) have dC: "?dC = Some r'" by simp
          then have C: "chowPossible groups ?key"
            and dC': "decompose (takeChow ?key groups) keys ?i
                        (fst result, snd result @ [mkSet Chow ?key]) = Some r'"
            by (auto split: if_splits)
          from C have "numberSuit (fst ?key)" by (simp add: chowPossible_def)
          with ih3 [OF dA dB C] dC' 1(5) show ?thesis by (simp add: mkSet_def)
        qed
      qed
    qed
  qed
qed

lemma meldSets_length: "meldSets ms = Some ss \<Longrightarrow> length ss = length ms"
  by (induction ms arbitrary: ss) (auto split: list.splits option.splits)

lemma meldSets_member:
  "meldSets ms = Some ss \<Longrightarrow> m \<in> set ms \<Longrightarrow>
   \<exists>s \<in> set ss. skey s = key (hd (mtiles m)) \<and> (mtype m \<noteq> Chow \<longrightarrow> stype s = Pung)"
  by (induction ms arbitrary: ss) (auto split: list.splits option.splits)

lemma length_concat_setKeys: "length (concat (map setKeys sets)) = 3 * length sets"
  by (induction sets) (simp_all add: setKeys_def)

lemma standard_sets_length:
  assumes "getWinDecomposition h = Some (Standard pair sets ms)"
  shows "2 + 3 * length sets = length (concealed h)"
proof -
  from standard_decomposition_keys [OF assms]
  have p: "pair \<noteq> None"
    and e: "mset (pairKeys pair @ concat (map setKeys sets)) = mset (map key (concealed h))"
    by simp_all
  from e have "length (pairKeys pair @ concat (map setKeys sets)) = length (map key (concealed h))"
    by (rule mset_eq_length)
  with p show ?thesis by (auto simp: pairKeys_def length_concat_setKeys)
qed

lemma concealed_pung:
  assumes d: "getWinDecomposition h = Some (Standard pair sets ms)"
    and c: "3 \<le> count_list (map key (concealed h)) k"
    and n: "\<not> numberSuit (fst k)"
  shows "\<exists>s \<in> set sets. skey s = k \<and> stype s \<noteq> Chow"
proof -
  let ?g = "groupTiles (concealed h)"
  from d have "decompose ?g (map fst ?g) 0 (None, []) = Some (pair, sets)"
    by (auto simp: getWinDecomposition_def Let_def split: if_splits option.splits)
  from decompose_chows [OF this]
  have chows: "\<forall>s \<in> set sets. stype s = Chow \<longrightarrow> numberSuit (fst (skey s))" by simp
  from standard_decomposition_keys [OF d]
  have "mset (pairKeys pair @ concat (map setKeys sets)) = mset (map key (concealed h))" by simp
  then have "count_list (pairKeys pair @ concat (map setKeys sets)) k
             = count_list (map key (concealed h)) k"
    by (metis count_mset)
  moreover have "count_list (pairKeys pair) k \<le> 2"
    by (simp add: pairKeys_def split: option.splits)
  ultimately have "0 < count_list (concat (map setKeys sets)) k" using c by simp
  then have "k \<in> set (concat (map setKeys sets))"
    by (metis count_list_0_iff less_numeral_extra(3))
  then obtain s where s: "s \<in> set sets" and k: "k \<in> set (setKeys s)" by auto
  show ?thesis
  proof (cases "stype s = Chow")
    case True
    with k have "fst k = fst (skey s)" by (auto simp: setKeys_def k2_def k3_def)
    with chows s True n show ?thesis by simp
  next
    case False
    with k have "skey s = k" by (simp add: setKeys_def)
    with s False show ?thesis by blast
  qed
qed

lemma bigFourWinds_sets:
  assumes d: "getWinDecomposition h = Some (Standard pair sets ms)"
    and m: "meldSets (melds h) = Some msets"
    and b: "bigFourWindsHand h"
  shows "length (filter (\<lambda>s. fst (skey s) = Wind \<and> stype s \<noteq> Chow) (sets @ msets)) = 4"
proof -
  let ?P = "\<lambda>s. fst (skey s) = Wind \<and> stype s \<noteq> Chow"
  let ?F = "filter ?P (sets @ msets)"
  have ex: "\<exists>s \<in> set (sets @ msets). skey s = (Wind, w) \<and> stype s \<noteq> Chow"
    if w: "w \<in> {1, 2, 3, 4}" for w :: nat
  proof -
    from b w have "holdsPung h (Wind, w)" by (auto simp: bigFourWindsHand_def)
    then consider "3 \<le> count_list (map key (concealed h)) (Wind, w)"
      | x where "x \<in> set (melds h)" "mtype x \<noteq> Chow" "mtiles x \<noteq> []"
          "\<forall>t \<in> set (mtiles x). key t = (Wind, w)"
      by (auto simp: holdsPung_def)
    then show ?thesis
    proof cases
      case 1
      from concealed_pung [OF d 1] show ?thesis by (auto simp: numberSuit_def)
    next
      case 2
      from 2(3,4) have "key (hd (mtiles x)) = (Wind, w)" by (cases "mtiles x") auto
      with meldSets_member [OF m 2(1)] 2(2) show ?thesis by auto
    qed
  qed
  have "(\<lambda>w. (Wind, w)) ` {1, 2, 3, 4::nat} \<subseteq> skey ` set ?F"
  proof
    fix k assume "k \<in> (\<lambda>w. (Wind, w)) ` {1, 2, 3, 4::nat}"
    then obtain w where w: "w \<in> {1, 2, 3, 4::nat}" and k: "k = (Wind, w)" by blast
    from ex [OF w] obtain s where "s \<in> set (sets @ msets)" "skey s = (Wind, w)" "stype s \<noteq> Chow"
      by blast
    then have "s \<in> set ?F" by simp
    with \<open>skey s = (Wind, w)\<close> k show "k \<in> skey ` set ?F" by force
  qed
  then have "card ((\<lambda>w. (Wind, w)) ` {1, 2, 3, 4::nat}) \<le> card (skey ` set ?F)"
    by (intro card_mono) simp_all
  moreover have "card ((\<lambda>w. (Wind, w)) ` {1, 2, 3, 4::nat}) = 4" by simp
  moreover have "card (skey ` set ?F) \<le> card (set ?F)" by (rule card_image_le) simp
  moreover have "card (set ?F) \<le> length ?F" by (rule card_length)
  ultimately have lower: "4 \<le> length ?F" by linarith
  have "length ?F \<le> length (sets @ msets)" by (rule length_filter_le)
  moreover have "length (sets @ msets) = 4"
    using standard_sets_length [OF d] meldSets_length [OF m] b
    by (simp add: bigFourWindsHand_def)
  ultimately show ?thesis using lower by linarith
qed

lemma bigFourWinds_max:
  assumes "calculate h ctx = Inr r" "bigFourWindsHand h" "canWin h"
  shows "totalFan r = 13"
proof (cases "getWinDecomposition h")
  case None
  with canWin_decomposition [OF assms(3)] show ?thesis by simp
next
  case (Some d)
  show ?thesis
  proof (cases d)
    case (SpecialHand sp ts)
    show ?thesis
    proof (cases sp)
      case SevenPairs
      with Some SpecialHand have sp: "melds h = []" "checkSevenPairs (concealed h)"
        by (auto simp: getWinDecomposition_def Let_def split: if_splits option.splits)
      from assms(2) sp(1) have c: "3 \<le> count_list (map key (concealed h)) (Wind, 1)"
        by (simp add: bigFourWindsHand_def holdsPung_def)
      then have "(Wind, 1) \<in> key ` set (concealed h)"
        by (metis count_list_0_iff not_numeral_le_zero set_map)
      with sp(2) have "count_list (map key (concealed h)) (Wind, 1) = 2"
        by (auto simp: checkSevenPairs_iff)
      with c show ?thesis by simp
    next
      case ThirteenOrphans
      with Some SpecialHand assms(1) show ?thesis by (auto simp: calculate_thirteenOrphans)
    qed
  next
    case (Standard pair sets ms)
    with Some have d: "getWinDecomposition h = Some (Standard pair sets ms)" by simp
    show ?thesis
    proof (cases "meldSets (melds h)")
      case None
      with d assms(1) show ?thesis by (simp add: calculate_def)
    next
      case (Some msets)
      from accumulate_bigFourWinds [OF bigFourWinds_sets [OF d Some assms(2)]]
      have "\<And>ts. 13 \<le> sumFan (accumulate h ctx pair (sets @ msets) ts)" .
      with assms(1) show ?thesis
        by (auto simp: calculate_standard [OF d Some] Let_def split: if_splits)
    qed
  qed
qed

subsection \<open>All honours and thirteen orphans\<close>

lemma allHonours_max:
  assumes "calculate h ctx = Inr r" "allHonoursHand h" "canWin h"
  shows "totalFan r = 13"
proof (cases "getWinDecomposition h")
  case None
  with canWin_decomposition [OF assms(3)] show ?thesis by simp
next
  case (Some d)
  show ?thesis
  proof (cases d)
    case (SpecialHand sp ts)
    show ?thesis
    proof (cases sp)
      case SevenPairs
      with Some SpecialHand have d: "getWinDecomposition h = Some (SpecialHand SevenPairs ts)"
        by simp
      then have "ts = concealed h"
        by (auto simp: getWinDecomposition_def Let_def split: if_splits option.splits)
      with assms(2) have "list_all isHonour ts" by (simp add: allHonoursHand_def)
      with assms(1) show ?thesis by (auto simp: calculate_sevenPairs [OF d])
    next
      case ThirteenOrphans
      with Some SpecialHand assms(1) show ?thesis by (auto simp: calculate_thirteenOrphans)
    qed
  next
    case (Standard pair sets ms)
    with Some have d: "getWinDecomposition h = Some (Standard pair sets ms)" by simp
    show ?thesis
    proof (cases "meldSets (melds h)")
      case None
      with d assms(1) show ?thesis by (simp add: calculate_def)
    next
      case (Some msets)
      with assms(1,2) show ?thesis
        by (auto simp: calculate_standard [OF d Some] Let_def allHonoursHand_def)
    qed
  qed
qed

lemma orphansLoop_present:
  "\<forall>x \<in> set ks. 1 \<le> cnt g x \<Longrightarrow> orphansLoop g ks b = (b \<or> (\<exists>x \<in> set ks. cnt g x = 2))"
  by (induction ks arbitrary: b) auto

lemma orphansLoop_missing:
  "x \<in> set ks \<Longrightarrow> cnt g x = 0 \<Longrightarrow> orphansLoop g ks b = False"
  by (induction ks arbitrary: b) auto

lemma distinct_required: "distinct required"
  by (simp add: required_def)

lemma length_required: "length required = 13"
  by (simp add: required_def)

lemma count_distinct: "distinct xs \<Longrightarrow> x \<in> set xs \<Longrightarrow> count_list xs x = 1"
  by (induction xs) auto

lemma count_keys_mset:
  "mset (map key ts) = mset ks \<Longrightarrow> count_list (map key ts) k = count_list ks k"
  by (metis count_mset)

lemma thirteenOrphans_decomposition:
  assumes "thirteenOrphansHand h"
  shows "getWinDecomposition h = Some (SpecialHand ThirteenOrphans (concealed h))"
proof -
  let ?ts = "concealed h"
  from assms obtain k where m: "melds h = []" and k: "k \<in> set required"
    and e: "mset (map key ?ts) = mset (k # required)"
    by (auto simp: thirteenOrphansHand_def)
  from e have "length (map key ?ts) = length (k # required)" by (rule mset_eq_length)
  then have len: "length ?ts = 14" by (simp add: length_required)
  from e have "set (map key ?ts) = set (k # required)" by (rule mset_eq_setD)
  with k have s: "key ` set ?ts = set required" by auto
  have "card (set required) = 13"
    using distinct_required by (simp add: distinct_card length_required)
  with s have nsp: "\<not> checkSevenPairs ?ts" by (simp add: checkSevenPairs_iff)
  have c: "\<And>x. cnt (groupTiles ?ts) x = count_list (k # required) x"
    using count_keys_mset [OF e] by (simp add: cnt_groupTiles)
  have one: "\<And>x. x \<in> set required \<Longrightarrow> count_list required x = 1"
    using distinct_required by (rule count_distinct)
  have "\<forall>x \<in> set required. 1 \<le> cnt (groupTiles ?ts) x"
    using one by (simp add: c)
  moreover have "cnt (groupTiles ?ts) k = 2" using one [OF k] by (simp add: c)
  ultimately have "checkThirteenOrphans ?ts"
    using k by (auto simp: checkThirteenOrphans_def orphansLoop_present)
  with m len nsp show ?thesis by (simp add: getWinDecomposition_def Let_def)
qed

lemma thirteenOrphans_max:
  assumes "calculate h ctx = Inr r" "thirteenOrphansHand h"
  shows "totalFan r = 13"
  using assms(1) calculate_thirteenOrphans [OF thirteenOrphans_decomposition [OF assms(2)], of ctx]
  by auto

subsection \<open>Nine gates\<close>

lemma setSize_one: "xs \<noteq> [] \<Longrightarrow> \<forall>x \<in> set xs. x = a \<Longrightarrow> setSize xs = 1"
proof -
  assume "xs \<noteq> []" "\<forall>x \<in> set xs. x = a"
  then have "set xs = {a}" by (cases xs) auto
  then have "card (set xs) = 1" by simp
  then show ?thesis by (simp add: setSize_def length_remdups_card_conv)
qed

lemma valueCount_single_suit:
  "\<forall>t \<in> set ts. suit t = s \<Longrightarrow> valueCount ts v = count_list (map key ts) (s, v)"
  by (induction ts) (auto simp: valueCount_def key_def)

lemma set_nineGatesTiles: "set (nineGatesTiles s) = (\<lambda>v. (s, v)) ` {1..9}"
proof -
  have "{1..9::nat} = {1, 2, 3, 4, 5, 6, 7, 8, 9}" by auto
  then show ?thesis by (auto simp: nineGatesTiles_def)
qed

lemma nineGates_max:
  assumes "calculate h ctx = Inr r" "nineGatesHand h" "canWin h"
  shows "totalFan r = 13"
proof -
  let ?ts = "concealed h"
  from assms(2) obtain s v where m: "melds h = []" and ns: "numberSuit s"
    and v: "1 \<le> v" "v \<le> 9" and e: "mset (map key ?ts) = mset ((s, v) # nineGatesTiles s)"
    by (auto simp: nineGatesHand_def)
  from e have "set (map key ?ts) = set ((s, v) # nineGatesTiles s)" by (rule mset_eq_setD)
  with v have keys: "key ` set ?ts = (\<lambda>v. (s, v)) ` {1..9}"
    by (auto simp: set_nineGatesTiles)
  have "inj_on (\<lambda>v. (s, v)) {1..9::nat}" by (simp add: inj_on_def)
  then have "card ((\<lambda>v. (s, v)) ` {1..9::nat}) = 9" by (simp add: card_image)
  with keys have nsp: "\<not> checkSevenPairs ?ts" by (simp add: checkSevenPairs_iff)
  have suits: "\<forall>t \<in> set ?ts. suit t = s"
  proof
    fix t assume "t \<in> set ?ts"
    then have "key t \<in> key ` set ?ts" by simp
    with keys show "suit t = s" by (auto simp: key_def)
  qed
  have c: "\<And>x. cnt (groupTiles ?ts) x = count_list ((s, v) # nineGatesTiles s) x"
    using count_keys_mset [OF e] by (simp add: cnt_groupTiles)
  have "(Wind, 1) \<notin> key ` set ?ts" using ns keys by (auto simp: numberSuit_def)
  then have "cnt (groupTiles ?ts) (Wind, 1) = 0"
    by (simp add: cnt_groupTiles count_list_0_iff)
  moreover have "(Wind, 1) \<in> set required" by (simp add: required_def)
  ultimately have nto: "\<not> checkThirteenOrphans ?ts"
    by (simp add: checkThirteenOrphans_def orphansLoop_missing)
  from canWin_decomposition [OF assms(3)] nsp nto obtain pair sets where
    d: "getWinDecomposition h = Some (Standard pair sets (melds h))"
    by (auto simp: getWinDecomposition_def Let_def split: option.splits)
  have ms: "meldSets (melds h) = Some []" by (simp add: m)
  from e have "length (map key ?ts) = length ((s, v) # nineGatesTiles s)" by (rule mset_eq_length)
  then have ne: "?ts \<noteq> []" by auto
  then obtain t0 rest where ts: "?ts = t0 # rest" by (cases ?ts) auto
  with suits ns have num: "\<forall>t \<in> set ?ts. isNumberSuit t" by (simp add: isNumberSuit_def)
  with ts have nh: "\<not> list_all isHonour ?ts"
    by (auto simp: isHonour_def isNumberSuit_def isWind_def isDragon_def numberSuit_def)
  have vc: "\<And>w. valueCount ?ts w = count_list ((s, v) # nineGatesTiles s) (s, w)"
    using valueCount_single_suit [OF suits] count_keys_mset [OF e] by simp
  have ngc: "nineGatesCounts ?ts"
    by (simp add: nineGatesCounts_def vc nineGatesTiles_def)
  have "setSize (map suit ?ts) = 1"
    using setSize_one [of "map suit ?ts" s] ne suits by simp
  with m ts num ngc have ng: "nineGates h ?ts"
    by (simp add: nineGates_def)
  from assms(1) show ?thesis
    using nh ng by (auto simp: calculate_standard [OF d ms] Let_def m)
qed

subsection \<open>The bound and the maximal hands\<close>

definition windsHand :: hand where
  "windsHand =
     \<lparr>playerIndex = 0,
      concealed = [mkTile Wan 5 16, mkTile Wan 5 17, mkTile Wind 4 120, mkTile Wind 4 121,
                   mkTile Wind 4 122],
      melds = [\<lparr>mtype = Pung, mtiles = [mkTile Wind 1 108, mkTile Wind 1 109, mkTile Wind 1 110],
                 fromPlayer = Some 1\<rparr>,
               \<lparr>mtype = Pung, mtiles = [mkTile Wind 2 112, mkTile Wind 2 113, mkTile Wind 2 114],
                 fromPlayer = Some 2\<rparr>,
               \<lparr>mtype = KongExposed,
                 mtiles = [mkTile Wind 3 116, mkTile Wind 3 117, mkTile Wind 3 118,
                           mkTile Wind 3 119],
                 fromPlayer = Some 3\<rparr>],
      flowers = [], discards = []\<rparr>"

definition allBonus :: "tile list" where
  "allBonus = [mkTile Flower 1 136, mkTile Flower 2 137, mkTile Flower 3 138,
               mkTile Flower 4 139, mkTile Season 1 140, mkTile Season 2 141,
               mkTile Season 3 142, mkTile Season 4 143]"

definition bonusPairsHand :: hand where
  "bonusPairsHand =
     \<lparr>playerIndex = 0,
      concealed = [mkTile Wan 1 0, mkTile Wan 1 1, mkTile Wan 3 8, mkTile Wan 3 9,
                   mkTile Tung 2 40, mkTile Tung 2 41, mkTile Tung 5 52, mkTile Tung 5 53,
                   mkTile Sok 7 96, mkTile Sok 7 97, mkTile Wind 1 108, mkTile Wind 1 109,
                   mkTile Dragon 2 128, mkTile Dragon 2 129],
      melds = [], flowers = allBonus, discards = []\<rparr>"

text \<open>
  Claim C3, as the code has it.  For every hand whose melds hold at least one tile each (the
  melds of the game hold three or four) and every scoring context, \<^verbatim>\<open>Scoring.calculate\<close>
  returns a total of at most 13; and for a winning hand that is thirteen orphans, all
  honours, big four winds or nine gates, or that holds all eight bonus tiles and is not a
  seven-pairs hand, the total is exactly 13.  Bonus tiles are counted by the accumulation
  rules only, which the seven-pairs branch does not reach: the last theorem is a winning
  seven-pairs hand with all eight bonus tiles that scores 4.
\<close>

theorem fan_bounds:
  "wfMelds h \<Longrightarrow>
   \<exists>r. calculate h ctx = Inr r \<and> totalFan r \<le> 13 \<and>
       (canWin h \<and>
        (thirteenOrphansHand h \<or> allHonoursHand h \<or> bigFourWindsHand h \<or> nineGatesHand h
         \<or> (eightBonusHand h \<and> \<not> sevenPairsHand h))
        \<longrightarrow> totalFan r = 13)"
proof -
  assume "wfMelds h"
  then obtain r where r: "calculate h ctx = Inr r" using calculate_returns by blast
  have "totalFan r \<le> 13" using r by (rule calculate_le)
  moreover have "thirteenOrphansHand h \<Longrightarrow> totalFan r = 13"
    using r by (rule thirteenOrphans_max)
  moreover have "canWin h \<Longrightarrow> allHonoursHand h \<Longrightarrow> totalFan r = 13"
    using r allHonours_max by blast
  moreover have "canWin h \<Longrightarrow> bigFourWindsHand h \<Longrightarrow> totalFan r = 13"
    using r bigFourWinds_max by blast
  moreover have "canWin h \<Longrightarrow> nineGatesHand h \<Longrightarrow> totalFan r = 13"
    using r nineGates_max by blast
  moreover have "canWin h \<Longrightarrow> eightBonusHand h \<Longrightarrow> \<not> sevenPairsHand h \<Longrightarrow> totalFan r = 13"
    using r eightBonus_max by blast
  ultimately show ?thesis using r by blast
qed

theorem fan_bounds_witness:
  "wfMelds windsHand \<and> canWin windsHand \<and> bigFourWindsHand windsHand \<and>
   calculate windsHand discardContext =
     Inr \<lparr>totalFan = 13,
          breakdown = [(AllPungsFan, 3), (MixedFlushFan, 3), (SeatWindFan 1, 1),
                       (RoundWindFan 1, 1), (BigFourWindsFan, 13)]\<rparr>"
proof -
  have a: "wfMelds windsHand" by code_simp
  have b: "canWin windsHand" by code_simp
  have c: "bigFourWindsHand windsHand" by code_simp
  have d: "calculate windsHand discardContext =
     Inr \<lparr>totalFan = 13,
          breakdown = [(AllPungsFan, 3), (MixedFlushFan, 3), (SeatWindFan 1, 1),
                       (RoundWindFan 1, 1), (BigFourWindsFan, 13)]\<rparr>" by code_simp
  from fan_bounds [OF a, of discardContext] a b c d show ?thesis by simp
qed

theorem eight_bonus_seven_pairs_counterexample:
  "canWin bonusPairsHand \<and> length (flowers bonusPairsHand) = 8 \<and>
   calculate bonusPairsHand discardContext
     = Inr \<lparr>totalFan = 4, breakdown = [(SevenPairsFan, 4)]\<rparr>"
  by code_simp

section \<open>The deal\<close>

lemma length_swapAt: "length (swapAt xs i j) = length xs"
  by (simp add: swapAt_def)

lemma length_shuffleLoop: "length (shuffleLoop rnd c i ts) = length ts"
  by (induction i arbitrary: c ts) (simp_all add: length_swapAt)

lemma length_createAllTiles: "length createAllTiles = 144"
  by code_simp

lemma length_shuffle: "length (shuffle rnd createAllTiles) = 144"
  by (simp add: shuffle_def length_shuffleLoop length_createAllTiles)

lemma build_fresh:
  "drawIndex (build rnd) = 0 \<and> length (tiles (build rnd)) = 130 \<and> length (deadWall (build rnd)) = 14"
  by (simp add: build_def Let_def length_shuffle)

text \<open>The positions of the wall that go to the seat \<open>p\<close> places after the dealer.\<close>

definition seatPositions :: "nat \<Rightarrow> nat list" where
  "seatPositions p =
     [4 * p, 4 * p + 1, 4 * p + 2, 4 * p + 3,
      16 + 4 * p, 16 + 4 * p + 1, 16 + 4 * p + 2, 16 + 4 * p + 3,
      32 + 4 * p, 32 + 4 * p + 1, 32 + 4 * p + 2, 32 + 4 * p + 3,
      48 + p] @ (if p = 0 then [52] else [])"

definition dealtHands :: "nat \<Rightarrow> tile list \<Rightarrow> tile option list list" where
  "dealtHands d ts =
     map (\<lambda>seat. map (\<lambda>i. Some (ts ! i)) (seatPositions ((seat + 4 - d) mod 4))) [0, 1, 2, 3]"

text \<open>The sequence of seats \<^verbatim>\<open>Wall.deal\<close> pushes to, one entry for each draw.\<close>

definition dealSequence :: "nat \<Rightarrow> nat list" where
  "dealSequence d =
     concat (replicate 3 (concat (map (replicate 4) (dealOrder d)))) @ dealOrder d @ [d]"

text \<open>The draws, numbered from \<open>k\<close>, that go to a seat.\<close>

fun positionsOf :: "nat \<Rightarrow> nat list \<Rightarrow> nat \<Rightarrow> nat list" where
  "positionsOf seat [] k = []"
| "positionsOf seat (i # is) k = (if i = seat then [k] else []) @ positionsOf seat is (k + 1)"

lemma fold_dealStep:
  "drawIndex w + length idxs \<le> length (tiles w) \<Longrightarrow>
   fold dealStep idxs (hs, w) = (hs', w') \<Longrightarrow>
   w' = w\<lparr>drawIndex := drawIndex w + length idxs\<rparr> \<and> length hs' = length hs \<and>
   (\<forall>seat < length hs. hs' ! seat
        = hs ! seat @ map (\<lambda>k. Some (tiles w ! k)) (positionsOf seat idxs (drawIndex w)))"
proof (induction idxs arbitrary: hs w)
  case Nil
  then show ?case by simp
next
  case (Cons i idxs)
  let ?hs1 = "hs[i := hs ! i @ [Some (tiles w ! drawIndex w)]]"
  let ?w1 = "w\<lparr>drawIndex := drawIndex w + 1\<rparr>"
  from Cons.prems(1) have s: "dealStep i (hs, w) = (?hs1, ?w1)"
    by (simp add: dealStep_def draw_def)
  with Cons.prems(2) have f: "fold dealStep idxs (?hs1, ?w1) = (hs', w')" by simp
  from Cons.prems(1) have "drawIndex ?w1 + length idxs \<le> length (tiles ?w1)" by simp
  from Cons.IH [OF this f] show ?case
    by (auto simp: nth_list_update)
qed

lemma length_dealSequence: "length (dealSequence d) = 53"
  by (simp add: dealSequence_def dealOrder_def length_concat sum_list_replicate)

lemma deal_as_fold:
  "d < 4 \<Longrightarrow> deal d w = Inr (fold dealStep (dealSequence d) ([[], [], [], []], w))"
  by (simp add: deal_def dealSequence_def Let_def)

lemma positions_dealSequence:
  "d < 4 \<Longrightarrow> seat < 4 \<Longrightarrow>
   positionsOf seat (dealSequence d) 0 = seatPositions ((seat + 4 - d) mod 4)"
proof -
  assume "d < 4" "seat < 4"
  then have "d \<in> {0, 1, 2, 3}" "seat \<in> {0, 1, 2, 3}" by auto
  then show ?thesis
    by (elim insertE emptyE; hypsubst; code_simp)
qed

lemma deal_round_robin:
  assumes "drawIndex w = 0" "53 \<le> length (tiles w)" "d < 4"
  shows "deal d w = Inr (dealtHands d (tiles w), w\<lparr>drawIndex := 53\<rparr>)"
proof -
  obtain hs' w' where f: "fold dealStep (dealSequence d) ([[], [], [], []], w) = (hs', w')"
    by (cases "fold dealStep (dealSequence d) ([[], [], [], []], w)")
  from assms have en: "drawIndex w + length (dealSequence d) \<le> length (tiles w)"
    by (simp add: length_dealSequence)
  have init: "\<And>seat. seat < 4 \<Longrightarrow> [[], [], [], []] ! seat = ([] :: tile option list)"
    by (auto simp: nth_Cons split: nat.splits)
  from fold_dealStep [OF en f] assms(1)
  have w': "w' = w\<lparr>drawIndex := 53\<rparr>" and l: "length hs' = 4"
    and h: "\<And>seat. seat < 4 \<Longrightarrow>
              hs' ! seat = map (\<lambda>k. Some (tiles w ! k)) (positionsOf seat (dealSequence d) 0)"
    by (simp_all add: length_dealSequence init)
  have "hs' = dealtHands d (tiles w)"
  proof (rule nth_equalityI)
    show "length hs' = length (dealtHands d (tiles w))" using l by (simp add: dealtHands_def)
  next
    fix seat assume "seat < length hs'"
    with l have s: "seat < 4" by simp
    then have "seat \<in> {0, 1, 2, 3}" by auto
    then have "dealtHands d (tiles w) ! seat
             = map (\<lambda>i. Some (tiles w ! i)) (seatPositions ((seat + 4 - d) mod 4))"
      by (auto simp: dealtHands_def)
    with h [OF s] positions_dealSequence [OF assms(3) s]
    show "hs' ! seat = dealtHands d (tiles w) ! seat" by simp
  qed
  with f w' show ?thesis by (simp add: deal_as_fold [OF assms(3)])
qed


definition identityShuffle :: random_source where
  "identityShuffle c = 143 - c"

lemma seat_offset: "d < 4 \<Longrightarrow> p < 4 \<Longrightarrow> (((d + p) mod 4) + 4 - d) mod 4 = (p::nat)"
proof -
  assume "d < 4" "p < 4"
  then have "d \<in> {0, 1, 2, 3}" "p \<in> {0, 1, 2, 3}" by auto
  then show ?thesis by (elim insertE emptyE; hypsubst; simp)
qed

text \<open>
  Claim C9.  On a freshly built wall and for a dealer index in 0..3, \<^verbatim>\<open>deal\<close> hands out the
  tiles in blocks of four to each of the four seats, starting at the dealer and following
  the seating order, until everyone holds twelve; then one tile each in the same order;
  then one more tile to the dealer.  The seat \<open>p\<close> places after the dealer receives the
  wall positions \<open>seatPositions p\<close>; the dealer ends with 14 tiles, the others with 13, and
  77 tiles stay in the live wall.
\<close>

theorem deal_fresh_wall:
  "d < 4 \<Longrightarrow>
   \<exists>hs w'. deal d (build rnd) = Inr (hs, w') \<and> length hs = 4 \<and>
     (\<forall>p < 4. hs ! ((d + p) mod 4)
                = map (\<lambda>i. Some (tiles (build rnd) ! i)) (seatPositions p)) \<and>
     length (hs ! d) = 14 \<and> (\<forall>seat < 4. seat \<noteq> d \<longrightarrow> length (hs ! seat) = 13) \<and>
     remaining w' = 77"
proof -
  assume d: "d < 4"
  let ?w = "build rnd"
  let ?hs = "dealtHands d (tiles ?w)"
  have dl: "deal d ?w = Inr (?hs, ?w\<lparr>drawIndex := 53\<rparr>)"
    using build_fresh [of rnd] d by (simp add: deal_round_robin)
  have nth: "\<And>seat. seat < 4 \<Longrightarrow>
      ?hs ! seat = map (\<lambda>i. Some (tiles ?w ! i)) (seatPositions ((seat + 4 - d) mod 4))"
  proof -
    fix seat :: nat assume "seat < 4"
    then have "seat \<in> {0, 1, 2, 3}" by auto
    then show "?hs ! seat = map (\<lambda>i. Some (tiles ?w ! i)) (seatPositions ((seat + 4 - d) mod 4))"
      by (auto simp: dealtHands_def)
  qed
  have a: "\<forall>p < 4. ?hs ! ((d + p) mod 4) = map (\<lambda>i. Some (tiles ?w ! i)) (seatPositions p)"
    using d by (simp add: nth seat_offset)
  have b: "length (?hs ! d) = 14" using d by (simp add: nth seatPositions_def)
  have c: "\<forall>seat < 4. seat \<noteq> d \<longrightarrow> length (?hs ! seat) = 13"
  proof (intro allI impI)
    fix seat :: nat assume s: "seat < 4" "seat \<noteq> d"
    with d have "(seat + 4 - d) mod 4 \<noteq> 0" by presburger
    with s show "length (?hs ! seat) = 13" by (simp add: nth seatPositions_def)
  qed
  have e: "remaining (?w\<lparr>drawIndex := 53\<rparr>) = 77"
    using build_fresh [of rnd] by (simp add: remaining_def)
  have "length ?hs = 4" by (simp add: dealtHands_def)
  with dl a b c e show ?thesis by blast
qed

theorem deal_fresh_wall_witness:
  "(3::nat) < 4 \<and>
   (case deal 3 (build identityShuffle) of
      Inl e \<Rightarrow> []
    | Inr (hs, w') \<Rightarrow> map (map (map_option tid)) hs)
   = [map Some [4, 5, 6, 7, 20, 21, 22, 23, 36, 37, 38, 39, 49],
      map Some [8, 9, 10, 11, 24, 25, 26, 27, 40, 41, 42, 43, 50],
      map Some [12, 13, 14, 15, 28, 29, 30, 31, 44, 45, 46, 47, 51],
      map Some [0, 1, 2, 3, 16, 17, 18, 19, 32, 33, 34, 35, 48, 52]]"
proof -
  have t: "map tid (tiles (build identityShuffle)) = [0..<130]"
    by code_simp
  have n: "\<And>i. i < 130 \<Longrightarrow> tid (tiles (build identityShuffle) ! i) = i"
  proof -
    fix i :: nat assume i: "i < 130"
    then have "map tid (tiles (build identityShuffle)) ! i = i" by (simp add: t)
    with i build_fresh [of identityShuffle] show "tid (tiles (build identityShuffle) ! i) = i"
      by simp
  qed
  from deal_fresh_wall [of 3 identityShuffle] obtain hs w' where
    dl: "deal 3 (build identityShuffle) = Inr (hs, w')" and l: "length hs = 4" and
    h: "\<forall>p < 4. hs ! ((3 + p) mod 4)
                = map (\<lambda>i. Some (tiles (build identityShuffle) ! i)) (seatPositions p)"
    by auto
  from h have "hs ! 3 = map (\<lambda>i. Some (tiles (build identityShuffle) ! i)) (seatPositions 0)"
    "hs ! 0 = map (\<lambda>i. Some (tiles (build identityShuffle) ! i)) (seatPositions 1)"
    "hs ! 1 = map (\<lambda>i. Some (tiles (build identityShuffle) ! i)) (seatPositions 2)"
    "hs ! 2 = map (\<lambda>i. Some (tiles (build identityShuffle) ! i)) (seatPositions 3)"
    by (auto dest: spec [of _ 0] spec [of _ 1] spec [of _ 2] spec [of _ 3])
  moreover from l obtain a b c d where "hs = [a, b, c, d]"
    by (auto simp: length_Suc_conv eval_nat_numeral)
  ultimately show ?thesis
    by (simp add: dl seatPositions_def n)
qed

section \<open>Payment is zero-sum\<close>

definition seatOk :: "nat option \<Rightarrow> bool" where
  "seatOk p = (case p of None \<Rightarrow> True | Some i \<Rightarrow> i < 4)"

text \<open>
  A completed round: four hands; no winner, or a winner in 0..3 with its win information,
  a discarder in 0..3 when the win was by discard, and melds of the winner that hold tiles
  and were fed, if at all, by a seat in 0..3.
\<close>

definition completedRound :: "game \<Rightarrow> bool" where
  "completedRound g =
     (length (hands g) = 4 \<and>
      (if winner g < 0 then True
       else winner g < 4 \<and>
            (case winInfo g of
               None \<Rightarrow> False
             | Some info \<Rightarrow>
                 wselfDrawn info \<or> (wfromPlayer info \<noteq> None \<and> seatOk (wfromPlayer info))) \<and>
            list_all (\<lambda>m. mtiles m \<noteq> [] \<and> seatOk (fromPlayer m))
              (melds (hands g ! nat (winner g)))))"

lemma fanToPoints_pos: "0 < fanToPoints n"
  by (simp add: fanToPoints_def)

lemma four_cases: "(n::nat) < 4 \<Longrightarrow> n = 0 \<or> n = 1 \<or> n = 2 \<or> n = 3"
  by linarith

lemma all_less_four: "(\<forall>i<4::nat. P i) = (P 0 \<and> P 1 \<and> P 2 \<and> P 3)"
  by (auto dest: four_cases)

lemma transfer_four:
  assumes "p < 4" "w < 4" "p \<noteq> w" "0 \<le> x"
  shows "\<exists>ds. transfer [0, 0, 0, 0] p w x = Some ds \<and> length ds = 4 \<and> sum_list ds = 0 \<and>
              ds ! p = - x \<and> ds ! w = x \<and> (\<forall>i<4. i \<noteq> p \<and> i \<noteq> w \<longrightarrow> ds ! i = 0)"
  using four_cases [OF assms(1)] four_cases [OF assms(2)] assms(3)
  by (auto simp: transfer_def addAt_def all_less_four)

lemma selfDrawnLoop_four:
  assumes "w < 4" "0 \<le> b"
  shows "\<exists>ds. selfDrawnLoop [0, 1, 2, 3] w d b [0, 0, 0, 0] = Some ds \<and> length ds = 4 \<and>
              sum_list ds = 0 \<and> (\<forall>i<4. i \<noteq> w \<longrightarrow> ds ! i \<le> 0) \<and> 0 \<le> ds ! w"
  using four_cases [OF assms(1)] assms(2)
  apply (elim disjE)
  apply (simp_all add: transfer_def addAt_def all_less_four Let_def)
  done

lemma feederOf_seat: "feederOf m w = Some p \<Longrightarrow> fromPlayer m = Some p \<and> p \<noteq> w"
  by (auto simp: feederOf_def split: option.splits if_splits)

lemma firstSuits_wf: "list_all (\<lambda>m. mtiles m \<noteq> [] \<and> Q m) ms \<Longrightarrow> firstSuits ms \<noteq> None"
  by (induction ms) (auto split: list.splits option.splits)

lemma last_filter_in: "filter P ms \<noteq> [] \<Longrightarrow> last (filter P ms) \<in> set ms"
  by (metis filter_is_subset last_in_set subsetD)

text \<open>Under the conditions of a completed round \<^verbatim>\<open>checkBaoPai\<close> names nobody, or a seat in
  0..3 other than the winner.\<close>

lemma checkBaoPai_completed:
  assumes "length (hands g) = 4" "w < 4"
    "list_all (\<lambda>m. mtiles m \<noteq> [] \<and> seatOk (fromPlayer m)) (melds (hands g ! w))"
  shows "checkBaoPai g w = Inr (- 1) \<or> (\<exists>p<4. p \<noteq> w \<and> checkBaoPai g w = Inr (int p))"
proof -
  let ?ms = "melds (hands g ! w)"
  have ok: "\<And>m p. m \<in> set ?ms \<Longrightarrow> feederOf m w = Some p \<Longrightarrow> p < 4 \<and> p \<noteq> w"
    using assms(3) by (auto simp: list_all_iff seatOk_def dest!: feederOf_seat)
  have d: "\<And>p. baoDragons ?ms w = Some p \<Longrightarrow> p < 4 \<and> p \<noteq> w"
    using ok last_filter_in [of "firstSuitIs Dragon" ?ms]
    by (fastforce simp: baoDragons_def Let_def split: if_splits)
  have wi: "\<And>p. baoWinds ?ms w = Some p \<Longrightarrow> p < 4 \<and> p \<noteq> w"
    using ok last_filter_in [of "firstSuitIs Wind" ?ms]
    by (fastforce simp: baoWinds_def Let_def split: if_splits)
  have k: "\<And>p. baoKongs ?ms w = Some p \<Longrightarrow> p < 4 \<and> p \<noteq> w"
    using ok last_filter_in [of isKongMeld ?ms]
    by (fastforce simp: baoKongs_def Let_def split: if_splits)
  have f: "baoFlush ?ms w = Inr None \<or> (\<exists>p<4. p \<noteq> w \<and> baoFlush ?ms w = Inr (Some p))"
  proof (cases "length ?ms \<ge> 4")
    case True
    then have ne: "?ms \<noteq> []" by auto
    from firstSuits_wf [OF assms(3)] obtain ss where ss: "firstSuits ?ms = Some ss" by auto
    show ?thesis
      using ok [of "last ?ms"] ne
      by (cases "feederOf (last ?ms) w") (auto simp: baoFlush_def ss)
  next
    case False
    then show ?thesis by (simp add: baoFlush_def)
  qed
  show ?thesis
    using assms(1,2) d wi k f
    by (auto simp: checkBaoPai_def Let_def split: option.splits sum.splits)
qed

text \<open>The melds of a hand whose first tile is a dragon, in the order they were made.\<close>

definition dragonMeldsOf :: "hand \<Rightarrow> meld list" where
  "dragonMeldsOf h = filter (firstSuitIs Dragon) (melds h)"

definition dragonsHand :: hand where
  "dragonsHand =
     \<lparr>playerIndex = 2,
      concealed = [mkTile Wan 2 4, mkTile Wan 3 8, mkTile Wan 4 12, mkTile Tung 5 52,
                   mkTile Tung 5 53],
      melds = [\<lparr>mtype = Pung, mtiles = [mkTile Dragon 1 124, mkTile Dragon 1 125,
                                          mkTile Dragon 1 126], fromPlayer = Some 0\<rparr>,
               \<lparr>mtype = Pung, mtiles = [mkTile Dragon 2 128, mkTile Dragon 2 129,
                                          mkTile Dragon 2 130], fromPlayer = Some 3\<rparr>,
               \<lparr>mtype = Pung, mtiles = [mkTile Dragon 3 132, mkTile Dragon 3 133,
                                          mkTile Dragon 3 134], fromPlayer = Some 1\<rparr>],
      flowers = [], discards = []\<rparr>"

definition emptyHand :: "nat \<Rightarrow> hand" where
  "emptyHand i = \<lparr>playerIndex = i, concealed = [], melds = [], flowers = [], discards = []\<rparr>"

definition selfDrawnContext :: scoring_context where
  "selfDrawnContext = \<lparr>seatWind = 3, roundWind = 1, selfDrawn = True, isLastTile = False,
                        isKongDraw = False, minFan = 1\<rparr>"



text \<open>
  A round won by seat 2, self-drawn, with three exposed dragon pungs of which the last was
  fed by seat 1; seat 0 is the dealer.
\<close>

definition baoGame :: game where
  "baoGame =
     \<lparr>wall = \<lparr>tiles = [], deadWall = [], drawIndex = 0\<rparr>,
      hands = [emptyHand 0, emptyHand 1, dragonsHand, emptyHand 3],
      state = Some ROUND_END, currentPlayer = 2, dealerIndex = 0, gameRoundWind = 1,
      roundNumber = 0, seatWinds = [1, 2, 3, 4], lastDiscard = None, lastDiscardPlayer = 1,
      turnCount = 20, winner = 2,
      winInfo = Some \<lparr>wscoring = \<lparr>totalFan = 12,
                                     breakdown = [(DragonPungFan 1, 1), (DragonPungFan 2, 1),
                                                  (DragonPungFan 3, 1), (SelfDrawnFan, 1),
                                                  (BigThreeDragonsFan, 8)]\<rparr>,
                       wselfDrawn = True, wfromPlayer = None\<rparr>,
      gameMinFan = 1, pendingClaims = [], gameSelfDrawn = True, gameIsKongDraw = False,
      drawnTile = None, scores = [10000, 10000, 10000, 10000], totalRounds = 0,
      maxRounds = 24, paymentInfo = None, diceResults = [1, 2, 2], diceRolled = True,
      timers = []\<rparr>"

text \<open>The same round won on a discard of the dealer, seat 0, at 3 fan.\<close>

definition discardWinGame :: game where
  "discardWinGame =
     baoGame\<lparr>winInfo := Some \<lparr>wscoring = \<lparr>totalFan = 3, breakdown = [(AllPungsFan, 3)]\<rparr>,
                               wselfDrawn = False, wfromPlayer = Some 0\<rparr>,
              lastDiscardPlayer := 0\<rparr>"

text \<open>
  Claim C4.  For every completed round \<^verbatim>\<open>calculatePayment\<close> returns four deltas that sum to
  zero.  On a drawn round, \<^verbatim>\<open>winner < 0\<close>, all four are zero.  With a winner, nobody else
  gains and the winner does not lose, so what the payers lose is what the winner gains.
\<close>

theorem payment_zero_sum:
  "completedRound g \<Longrightarrow>
   \<exists>pay. calculatePayment g = Inr pay \<and> length (deltas pay) = 4 \<and>
     sum_list (deltas pay) = 0 \<and>
     (if winner g < 0 then deltas pay = [0, 0, 0, 0]
      else (\<forall>i<4. i \<noteq> nat (winner g) \<longrightarrow> deltas pay ! i \<le> 0) \<and>
           0 \<le> deltas pay ! nat (winner g))"
proof (cases "winner g < 0")
  case True
  then show ?thesis by (simp add: calculatePayment_def)
next
  case False
  assume c: "completedRound g"
  let ?w = "nat (winner g)"
  from c False obtain info where len: "length (hands g) = 4" and w: "?w < 4"
    and info: "winInfo g = Some info"
    and fp: "wselfDrawn info \<or> (\<exists>p<4. wfromPlayer info = Some p)"
    and ms: "list_all (\<lambda>m. mtiles m \<noteq> [] \<and> seatOk (fromPlayer m)) (melds (hands g ! ?w))"
    by (auto simp: completedRound_def seatOk_def split: option.splits)
  let ?b = "fanToPoints (totalFan (wscoring info))"
  have b: "0 < ?b" by (rule fanToPoints_pos)
  show ?thesis
  proof (cases "wselfDrawn info")
    case True
    from checkBaoPai_completed [OF len w ms] show ?thesis
    proof
      assume n: "checkBaoPai g ?w = Inr (- 1)"
      from selfDrawnLoop_four [OF w, of ?b "dealerIndex g"] b obtain ds where
        ds: "selfDrawnLoop [0, 1, 2, 3] ?w (dealerIndex g) ?b [0, 0, 0, 0] = Some ds"
        "length ds = 4" "sum_list ds = 0" "\<forall>i<4. i \<noteq> ?w \<longrightarrow> ds ! i \<le> 0" "0 \<le> ds ! ?w"
        by auto
      have "calculatePayment g = Inr \<lparr>deltas = ds, responsible = - 1\<rparr>"
        using False by (simp add: calculatePayment_def info True Let_def n ds(1)
                              del: selfDrawnLoop.simps One_nat_def)
      with ds False show ?thesis by simp
    next
      assume "\<exists>p<4. p \<noteq> ?w \<and> checkBaoPai g ?w = Inr (int p)"
      then obtain p where p: "p < 4" "p \<noteq> ?w" and r: "checkBaoPai g ?w = Inr (int p)" by auto
      from b have b3: "0 \<le> ?b * 3" by simp
      from transfer_four [OF p(1) w p(2) b3] obtain ds where
        ds: "transfer [0, 0, 0, 0] p ?w (?b * 3) = Some ds" "length ds = 4" "sum_list ds = 0"
          "ds ! p = - (?b * 3)" "ds ! ?w = ?b * 3"
          "\<forall>i<4. i \<noteq> p \<and> i \<noteq> ?w \<longrightarrow> ds ! i = 0"
        by auto
      have "calculatePayment g = Inr \<lparr>deltas = ds, responsible = int p\<rparr>"
        using False by (simp add: calculatePayment_def info True Let_def r ds(1))
      moreover have "\<forall>i<4. i \<noteq> ?w \<longrightarrow> ds ! i \<le> 0"
        using ds(4,6) b3 by (metis neg_le_0_iff_le order_refl)
      ultimately show ?thesis using ds b3 False by simp
    qed
  next
    case False
    note nsd = False
    with fp obtain p where p: "p < 4" and fr: "wfromPlayer info = Some p" by auto
    let ?pay = "if ?w = dealerIndex g \<or> p = dealerIndex g then ?b * 2 else ?b"
    from b have pay: "0 \<le> ?pay" by simp
    show ?thesis
    proof (cases "p = ?w")
      case True
      have "transfer [0, 0, 0, 0] ?w ?w ?pay = Some [0, 0, 0, 0]"
        using four_cases [OF w] by (auto simp: transfer_def addAt_def)
      then have "calculatePayment g = Inr \<lparr>deltas = [0, 0, 0, 0], responsible = - 1\<rparr>"
        using \<open>\<not> winner g < 0\<close> True
        by (simp add: calculatePayment_def info nsd fr Let_def)
      then show ?thesis using \<open>\<not> winner g < 0\<close> four_cases [OF w]
        by (auto simp: all_less_four)
    next
      case False
      from transfer_four [OF p w False pay] obtain ds where
        ds: "transfer [0, 0, 0, 0] p ?w ?pay = Some ds" "length ds = 4" "sum_list ds = 0"
          "ds ! p = - ?pay" "ds ! ?w = ?pay"
          "\<forall>i<4. i \<noteq> p \<and> i \<noteq> ?w \<longrightarrow> ds ! i = 0"
        by auto
      have "calculatePayment g = Inr \<lparr>deltas = ds, responsible = - 1\<rparr>"
        using \<open>\<not> winner g < 0\<close> ds(1)
        by (simp add: calculatePayment_def info nsd fr Let_def)
      moreover have "\<forall>i<4. i \<noteq> ?w \<longrightarrow> ds ! i \<le> 0"
        using ds(4,6) pay by (metis neg_le_0_iff_le order_refl)
      ultimately show ?thesis using ds pay \<open>\<not> winner g < 0\<close> by simp
    qed
  qed
qed

theorem payment_zero_sum_witness:
  "completedRound discardWinGame \<and>
   calculatePayment discardWinGame = Inr \<lparr>deltas = [- 16, 0, 16, 0], responsible = - 1\<rparr> \<and>
   sum_list [- 16, 0, 16, 0 :: int] = 0"
proof -
  have a: "completedRound discardWinGame" by code_simp
  have c: "calculatePayment discardWinGame
           = Inr \<lparr>deltas = [- 16, 0, 16, 0], responsible = - 1\<rparr>" by code_simp
  from payment_zero_sum [OF a] a c show ?thesis by simp
qed

text \<open>
  Claim C5.  On a self-drawn win where the winner's hand has at least three melds of dragons
  and the last of them was fed by another seat, that seat alone pays: its delta is minus
  three times the base points, the winner's delta is plus three times the base points, and
  the two other deltas are zero.
\<close>

theorem bao_three_dragons:
  assumes "length (hands g) = 4" and "0 \<le> winner g" and "nat (winner g) < 4"
    and "winInfo g = Some info" and "wselfDrawn info"
    and "3 \<le> length (dragonMeldsOf (hands g ! nat (winner g)))"
    and "fromPlayer (last (dragonMeldsOf (hands g ! nat (winner g)))) = Some feeder"
    and "feeder \<noteq> nat (winner g)" and "feeder < 4"
  shows "\<exists>pay. calculatePayment g = Inr pay \<and> responsible pay = int feeder \<and>
           length (deltas pay) = 4 \<and>
           deltas pay ! feeder = - (3 * fanToPoints (totalFan (wscoring info))) \<and>
           deltas pay ! nat (winner g) = 3 * fanToPoints (totalFan (wscoring info)) \<and>
           (\<forall>i<4. i \<noteq> feeder \<and> i \<noteq> nat (winner g) \<longrightarrow> deltas pay ! i = 0)"
proof -
  let ?w = "nat (winner g)"
  let ?ms = "melds (hands g ! ?w)"
  let ?b = "fanToPoints (totalFan (wscoring info))"
  from assms(6) have ne: "?ms \<noteq> []" by (auto simp: dragonMeldsOf_def)
  have "baoDragons ?ms ?w = Some feeder"
    using assms(6,7,8) by (simp add: baoDragons_def dragonMeldsOf_def Let_def feederOf_def)
  then have r: "checkBaoPai g ?w = Inr (int feeder)"
    using assms(1,3) ne by (simp add: checkBaoPai_def Let_def)
  have "0 \<le> ?b * 3" using fanToPoints_pos [of "totalFan (wscoring info)"] by simp
  from transfer_four [OF assms(9) assms(3) assms(8) this] obtain ds where
    ds: "transfer [0, 0, 0, 0] feeder ?w (?b * 3) = Some ds" "length ds = 4"
      "ds ! feeder = - (?b * 3)" "ds ! ?w = ?b * 3"
      "\<forall>i<4. i \<noteq> feeder \<and> i \<noteq> ?w \<longrightarrow> ds ! i = 0"
    by auto
  have "calculatePayment g = Inr \<lparr>deltas = ds, responsible = int feeder\<rparr>"
    using assms(2) by (simp add: calculatePayment_def assms(4,5) Let_def r ds(1))
  with ds show ?thesis by (simp add: mult.commute)
qed

theorem bao_three_dragons_witness:
  "length (hands baoGame) = 4 \<and> 0 \<le> winner baoGame \<and> nat (winner baoGame) < 4 \<and>
   3 \<le> length (dragonMeldsOf (hands baoGame ! nat (winner baoGame))) \<and>
   fromPlayer (last (dragonMeldsOf (hands baoGame ! nat (winner baoGame)))) = Some 1 \<and>
   calculatePayment baoGame = Inr \<lparr>deltas = [0, - 3072, 3072, 0], responsible = 1\<rparr>"
proof -
  have a: "length (hands baoGame) = 4" "0 \<le> winner baoGame" "nat (winner baoGame) < 4"
    by code_simp+
  have i: "winInfo baoGame = Some \<lparr>wscoring = \<lparr>totalFan = 12,
                                     breakdown = [(DragonPungFan 1, 1), (DragonPungFan 2, 1),
                                                  (DragonPungFan 3, 1), (SelfDrawnFan, 1),
                                                  (BigThreeDragonsFan, 8)]\<rparr>,
                       wselfDrawn = True, wfromPlayer = None\<rparr>"
    by (simp add: baoGame_def)
  have d: "3 \<le> length (dragonMeldsOf (hands baoGame ! nat (winner baoGame)))"
    by code_simp
  have f: "fromPlayer (last (dragonMeldsOf (hands baoGame ! nat (winner baoGame)))) = Some 1"
    by code_simp
  have n: "(1::nat) \<noteq> nat (winner baoGame)" "(1::nat) < 4"
    by code_simp+
  have c: "calculatePayment baoGame = Inr \<lparr>deltas = [0, - 3072, 3072, 0], responsible = 1\<rparr>"
    by code_simp
  from bao_three_dragons [OF a i _ d f n] a d f c show ?thesis by simp
qed

section \<open>Guards of the human player's operations\<close>

text \<open>A strategy that never claims and discards its first tile.\<close>

definition passiveStrategy :: strategy where
  "passiveStrategy = \<lparr>decideClaim = (\<lambda>g p t n. None), chooseDiscard = (\<lambda>g p. 0)\<rparr>"

text \<open>
  Claim C8.  In a game whose state is not \<^verbatim>\<open>PLAYER_DISCARD\<close>, \<^verbatim>\<open>playerDiscard(tile)\<close> returns
  false and leaves the game as it was; in a game whose state is not \<^verbatim>\<open>PLAYER_TURN\<close>,
  \<^verbatim>\<open>playerDraw()\<close> returns false and leaves the game as it was.  Neither throws.
\<close>

theorem guards_reject:
  "(state g \<noteq> Some PLAYER_DISCARD \<longrightarrow> playerDiscard ai t g = Inr (False, g)) \<and>
   (state g \<noteq> Some PLAYER_TURN \<longrightarrow> playerDraw g = Inr (False, g))"
  by (simp add: playerDiscard_def playerDraw_def)

theorem guards_reject_witness:
  "state baoGame \<noteq> Some PLAYER_DISCARD \<and> state baoGame \<noteq> Some PLAYER_TURN \<and>
   playerDiscard passiveStrategy (mkTile Wan 2 4) baoGame = Inr (False, baoGame) \<and>
   playerDraw baoGame = Inr (False, baoGame)"
proof -
  have s: "state baoGame \<noteq> Some PLAYER_DISCARD" "state baoGame \<noteq> Some PLAYER_TURN"
    by (simp_all add: baoGame_def)
  from guards_reject [of baoGame passiveStrategy "mkTile Wan 2 4"] s show ?thesis by simp
qed

section \<open>The dealer from the dice\<close>

lemma those_map_Some: "those (map (\<lambda>i. Some (f i)) xs) = Some (map f xs)"
  by (induction xs) simp_all

lemma those_dealtHands:
  "those (map those (dealtHands d ts)) \<noteq> None"
  by (simp add: dealtHands_def those_map_Some)

lemma startRound_returns:
  assumes "dealerIndex g < 4"
  shows "\<exists>g'. startRound rnd g = Inr g' \<and> dealerIndex g' = dealerIndex g"
proof -
  have "deal (dealerIndex g) (build rnd)
        = Inr (dealtHands (dealerIndex g) (tiles (build rnd)), (build rnd)\<lparr>drawIndex := 53\<rparr>)"
    using build_fresh [of rnd] assms by (simp add: deal_round_robin)
  moreover obtain tss where
    "those (map those (dealtHands (dealerIndex g) (tiles (build rnd)))) = Some tss"
    using those_dealtHands by blast
  ultimately show ?thesis
    by (simp add: startRound_def Let_def)
qed

lemma jsRem_nonneg: "0 \<le> a \<Longrightarrow> jsRem a 4 = a mod 4"
  by (simp add: jsRem_def sgn_if)

text \<open>
  Claim C7.  For three dice of 1 to 6 each, \<^verbatim>\<open>confirmDice\<close> starts the round with the dealer
  index (sum - 1) mod 4.  The witness gives three sums: 7 and 3 make seat 2 the dealer, 18
  makes seat 1 the dealer.
\<close>

theorem dealer_from_dice:
  assumes "diceResults g = [a, b, c]"
    and "1 \<le> a" "a \<le> 6" "1 \<le> b" "b \<le> 6" "1 \<le> c" "c \<le> 6"
  shows "\<exists>g'. confirmDice rnd g = Inr g' \<and> dealerIndex g' = (a + b + c - 1) mod 4"
proof -
  let ?s = "a + b + c"
  have s: "sum_list (diceResults g) = ?s" using assms(1) by simp
  have nn: "0 \<le> int ?s - 1" using assms(2) by simp
  have e: "int ?s - 1 = int (?s - 1)" using assms(2) by linarith
  have "jsRem (int ?s - 1) 4 = (int ?s - 1) mod 4" using nn by (rule jsRem_nonneg)
  also have "\<dots> = int ((?s - 1) mod 4)" by (simp only: e zmod_int) simp
  finally have d: "jsRem (int ?s - 1) 4 = int ((?s - 1) mod 4)" .
  have "dealerIndex (g\<lparr>dealerIndex := (?s - 1) mod 4\<rparr>) < 4" by simp
  from startRound_returns [OF this, of rnd] obtain g' where
    "startRound rnd (g\<lparr>dealerIndex := (?s - 1) mod 4\<rparr>) = Inr g'"
    "dealerIndex g' = (?s - 1) mod 4" by auto
  then show ?thesis
    by (simp only: confirmDice_def Let_def s d) simp
qed

text \<open>The game object as the constructor leaves it; the four \<^verbatim>\<open>null\<close> hands are no hands.\<close>

definition newGame :: game where
  "newGame =
     \<lparr>wall = \<lparr>tiles = [], deadWall = [], drawIndex = 0\<rparr>, hands = [], state = Some MENU,
      currentPlayer = 0, dealerIndex = 0, gameRoundWind = 1, roundNumber = 0,
      seatWinds = [1, 2, 3, 4], lastDiscard = None, lastDiscardPlayer = - 1, turnCount = 0,
      winner = - 1, winInfo = None, gameMinFan = 1, pendingClaims = [],
      gameSelfDrawn = False, gameIsKongDraw = False, drawnTile = None,
      scores = [10000, 10000, 10000, 10000], totalRounds = 0, maxRounds = 24,
      paymentInfo = None, diceResults = [0, 0, 0], diceRolled = False, timers = []\<rparr>"

text \<open>A game in which the dice have been rolled.\<close>

definition diceGame :: "nat \<Rightarrow> nat \<Rightarrow> nat \<Rightarrow> game" where
  "diceGame a b c = (startGame newGame)\<lparr>diceResults := [a, b, c], diceRolled := True\<rparr>"

lemma rollDice_range:
  "\<not> diceRolled g \<Longrightarrow>
   \<exists>a b c. diceResults (rollDice rnd g) = [a, b, c] \<and> 1 \<le> a \<and> a \<le> 6 \<and> 1 \<le> b \<and> b \<le> 6
           \<and> 1 \<le> c \<and> c \<le> 6"
  by (simp add: rollDice_def) presburger

theorem dealer_from_dice_witness:
  "(\<exists>g'. confirmDice identityShuffle (diceGame 2 2 3) = Inr g' \<and> dealerIndex g' = 2) \<and>
   (\<exists>g'. confirmDice identityShuffle (diceGame 1 1 1) = Inr g' \<and> dealerIndex g' = 2) \<and>
   (\<exists>g'. confirmDice identityShuffle (diceGame 6 6 6) = Inr g' \<and> dealerIndex g' = 1)"
proof -
  have d: "\<And>a b c. diceResults (diceGame a b c) = [a, b, c]"
    by (simp add: diceGame_def)
  from dealer_from_dice [OF d, of 2 2 3 identityShuffle]
       dealer_from_dice [OF d, of 1 1 1 identityShuffle]
       dealer_from_dice [OF d, of 6 6 6 identityShuffle]
  show ?thesis by (simp add: numeral_2_eq_2)
qed


section \<open>The number of tiles in play\<close>

definition scenarioChoices :: "nat list" where
  "scenarioChoices = [143, 142, 141, 140, 139, 138, 137, 136, 135, 134, 133, 131, 130, 129, 127, 126, 125, 123, 122, 121, 119, 118, 117, 115, 114, 113, 111, 110, 109, 107, 106, 105, 103, 102, 101, 100, 99, 98, 97, 95, 94, 93, 92, 91, 90, 89, 87, 86, 85, 84, 83, 82, 81, 79, 78, 77, 76, 75, 74, 71, 70, 69, 68, 67, 66, 65, 64, 63, 62, 61, 60, 59, 58, 57, 56, 55, 54, 51, 50, 49, 48, 47, 46, 45, 44, 43, 42, 41, 40, 39, 35, 35, 34, 33, 35, 33, 32, 31, 30, 29, 28, 27, 26, 25, 38, 37, 36, 24, 34, 28, 26, 27, 23, 22, 21, 19, 18, 17, 15, 14, 20, 16, 12, 8, 17, 15, 8, 15, 13, 11, 10, 9, 7, 6, 5, 3, 4, 2, 1, 0, 3, 0, 0]"

definition scenarioShuffle :: random_source where
  "scenarioShuffle c = scenarioChoices ! c"

definition scenarioDice :: random_source where
  "scenarioDice c = [0, 0, 1] ! c"

definition handTiles :: "hand \<Rightarrow> nat" where
  "handTiles h =
     length (concealed h) + sum_list (map (\<lambda>m. length (mtiles m)) (melds h))
     + length (flowers h) + length (discards h)"

definition totalTiles :: "game \<Rightarrow> nat" where
  "totalTiles g =
     sum_list (map handTiles (hands g)) + remaining (wall g) + length (deadWall (wall g))"

definition afterDice :: "failure + game" where
  "afterDice = confirmDice scenarioShuffle (rollDice scenarioDice (startGame newGame))"

definition afterAITurn :: "failure + game" where
  "afterAITurn = (case afterDice of Inl e \<Rightarrow> Inl e | Inr g \<Rightarrow> processAITurn passiveStrategy g)"

definition afterWinClaim :: "failure + game" where
  "afterWinClaim = (case afterAITurn of Inl e \<Rightarrow> Inl e | Inr g \<Rightarrow> playerClaim WinClaim None g)"

text \<open>What is looked at in a state: the state field, the claims offered to the human seat,
  and the number of tiles.\<close>

definition observe :: "failure + game \<Rightarrow> (game_state option \<times> claim_action list \<times> nat) option" where
  "observe r =
     (case r of Inl e \<Rightarrow> None | Inr g \<Rightarrow> Some (state g, pendingClaims g, totalTiles g))"

lemma scenario_before_claim: "observe afterAITurn = Some (Some CLAIMING, [WinClaim], 144)"
  by code_simp

lemma scenario_after_claim: "observe afterWinClaim = Some (Some ROUND_END, [WinClaim], 145)"
  by code_simp

text \<open>
  Claim C1, at a state the game reaches.  The dice 1, 1, 2 make seat 3 the dealer; the wall
  is shuffled so that the human seat is dealt a hand waiting for a five-tung and the dealer
  holds one; the dealer discards it on its first turn, the win is offered to the human
  seat, and the human claims it.  Up to the claim the hands, discard piles and walls hold
  144 tiles.  \<^verbatim>\<open>playerClaim\<close> adds the tile to the winner's hand and returns before the lines
  that take it off the discarder's pile (the callback of \<^verbatim>\<open>_executeAIClaim\<close> removes it
  first), so the count is 145 afterwards.
\<close>

theorem human_win_claim_count:
  "observe afterAITurn = Some (Some CLAIMING, [WinClaim], 144) \<and>
   observe afterWinClaim = Some (Some ROUND_END, [WinClaim], 145)"
  using scenario_before_claim scenario_after_claim by simp


section \<open>A kong when the dead wall is exhausted\<close>

definition tileOfId :: "nat \<Rightarrow> tile" where
  "tileOfId i = createAllTiles ! i"

text \<open>
  A state late in a round.  All eight bonus tiles have been replaced and six kongs declared,
  which used up the 14 tiles of the dead wall; 30 tiles are left in the live wall.  The
  human seat has just drawn and holds four one-wan among its 14 concealed tiles.
\<close>

definition kongWallIds :: "nat list" where
  "kongWallIds = ([0..<79] @ [84, 92, 100] @ [108..<118] @ [136, 140, 137, 141, 138, 142, 139,
      143] @ [79..<84] @ [85..<92] @ [93..<100] @ [101..<108] @ [132..<136])"

definition kongHands :: "hand list" where
  "kongHands = [\<lparr>playerIndex = 0, concealed = map tileOfId ([0..<4] @ [8, 16, 24, 40,
      48, 56, 76, 84, 92, 100]),
        melds = [],
        flowers = map tileOfId [136, 140],
        discards = map tileOfId [28..<40]\<rparr>,
      \<lparr>playerIndex = 1, concealed = map tileOfId [4, 5, 6, 7, 9, 10, 11],
        melds = [\<lparr>mtype = KongConcealed, mtiles = map tileOfId [108, 109, 110, 111],
            fromPlayer = None\<rparr>, \<lparr>mtype = KongConcealed, mtiles = map tileOfId
                [112, 113, 114, 115], fromPlayer = None\<rparr>],
        flowers = map tileOfId [137, 141],
        discards = map tileOfId ([41..<48] @ [49..<54])\<rparr>,
      \<lparr>playerIndex = 2, concealed = map tileOfId [12, 13, 14, 15, 17, 18, 19],
        melds = [\<lparr>mtype = KongConcealed, mtiles = map tileOfId [116, 117, 118, 119],
            fromPlayer = None\<rparr>, \<lparr>mtype = KongConcealed, mtiles = map tileOfId
                [120, 121, 122, 123], fromPlayer = None\<rparr>],
        flowers = map tileOfId [138, 142],
        discards = map tileOfId ([54, 55] @ [57..<67])\<rparr>,
      \<lparr>playerIndex = 3, concealed = map tileOfId [20, 21, 22, 23, 25, 26, 27],
        melds = [\<lparr>mtype = KongConcealed, mtiles = map tileOfId [124, 125, 126, 127],
            fromPlayer = None\<rparr>, \<lparr>mtype = KongConcealed, mtiles = map tileOfId
                [128, 129, 130, 131], fromPlayer = None\<rparr>],
        flowers = map tileOfId [139, 143],
        discards = map tileOfId ([67..<76] @ [77, 78])\<rparr>]"

definition kongGame :: game where
  "kongGame =
     newGame\<lparr>wall := \<lparr>tiles = map tileOfId kongWallIds, deadWall = [], drawIndex = 100\<rparr>,
             hands := kongHands, state := Some PLAYER_DISCARD, currentPlayer := 0,
             dealerIndex := 1, lastDiscardPlayer := 3, turnCount := 60,
             gameSelfDrawn := True, diceResults := [1, 2, 3], diceRolled := True\<rparr>"

text \<open>What is looked at after the kong: the tiles left in the live wall, the sizes of the
  human seat's concealed hand, melds and discard pile, and the number of tiles in all.\<close>

definition kongView :: "failure + game \<Rightarrow> (nat \<times> nat \<times> nat list \<times> nat \<times> nat) option" where
  "kongView r =
     (case r of
        Inl e \<Rightarrow> None
      | Inr g \<Rightarrow>
          Some (remaining (wall g), length (concealed (hands g ! 0)),
                map (\<lambda>m. length (mtiles m)) (melds (hands g ! 0)),
                length (discards (hands g ! 0)), totalTiles g))"


lemma kongReplacement_exhausted: "deadWall (wall g) = [] \<Longrightarrow> kongReplacement p g = g"
  by (simp add: kongReplacement_def drawFromDeadWall_def)

text \<open>
  Claim C6, at that state.  The human seat declares the concealed kong of one-wan.  The
  kong paths take their replacement from \<^verbatim>\<open>drawFromDeadWall\<close> alone (the bonus-tile
  replacement of \<^verbatim>\<open>_handleFlowerBloom\<close> goes on to \<^verbatim>\<open>draw\<close>): the live wall still has its 30
  tiles afterwards, the seat has received nothing, and \<^verbatim>\<open>_validateHandSize\<close> has moved two
  of the ten remaining concealed tiles to the discard pile.
\<close>

theorem kong_without_replacement:
  "kongView (Inr kongGame) = Some (30, 14, [], 12, 144) \<and>
   getConcealedKongs (hands kongGame ! 0) = [(Wan, 1)] \<and>
   kongView (playerKong KongConcealed (Wan, 1) kongGame) = Some (30, 8, [4], 14, 144)"
  by code_simp

end
